theory Spec2Isabelle
  imports Complex_Main "HOL-Library.Sublist"
begin

section \<open>Shared types (src/shared/types.ts)\<close>

text \<open>
  The eight action kinds of \<^verbatim>\<open>ActionType\<close>. The constructors are capitalised:
  \<^verbatim>\<open>done\<close> is a keyword of the proof language.
\<close>

datatype ActionType = Navigate | Click | Type | Extract | Scroll | Wait | Done | Fail

text \<open>
  \<^verbatim>\<open>PlannerOutput\<close>: the nested objects \<^verbatim>\<open>current_state\<close> and \<^verbatim>\<open>plan\<close> are records
  of their own.
\<close>

record PlannerState =
  analysis :: string
  memory :: "string list"

record PlannerPlan =
  thought :: string
  steps :: "string list"
  success_criteria :: string

record PlannerOutput =
  current_state :: PlannerState
  plan :: PlannerPlan

text \<open>
  \<^verbatim>\<open>NavigatorOutput\<close>. A \<^verbatim>\<open>Record<string, string>\<close> is an association list read with
  \<^const>\<open>map_of\<close>. Field names that \<^verbatim>\<open>PlannerOutput\<close> already uses carry a prefix.
\<close>

record NavigatorState =
  page_summary :: string
  relevant_elements :: "string list"
  progress :: string

record NavigatorAction =
  action_thought :: string
  action_type :: ActionType
  parameters :: "(string \<times> string) list"

record NavigatorOutput =
  nav_current_state :: NavigatorState
  action :: NavigatorAction

record ActionResult =
  success :: bool
  data :: "string option"
  error :: "string option"

record InteractiveElement =
  el_index :: nat
  el_tag :: string
  el_type :: "string option"
  el_text :: string
  el_selector :: string
  el_attributes :: "(string \<times> string) list"

record DOMState =
  url :: string
  title :: string
  interactiveElements :: "InteractiveElement list"
  pageText :: string

record AgentStep =
  step_action :: NavigatorAction
  step_result :: ActionResult
  timestamp :: nat

text \<open>\<^verbatim>\<open>AgentContext\<close>; its optional field \<^verbatim>\<open>plan\<close> is \<open>ctx_plan\<close> here.\<close>

record AgentContext =
  task :: string
  ctx_plan :: "PlannerOutput option"
  history :: "AgentStep list"

datatype ExecutorEvent =
    INIT_START
  | INIT_PROGRESS real
  | INIT_COMPLETE
  | VLM_INIT_START
  | VLM_INIT_PROGRESS real
  | VLM_INIT_COMPLETE
  | PLAN_START
  | PLAN_COMPLETE "string list"
  | STEP_START nat
  | STEP_ACTION ActionType "(string \<times> string) list"
  | STEP_RESULT bool "string option"
  | SCREENSHOT_CAPTURED
  | VISION_ANALYSIS_COMPLETE
  | TASK_COMPLETE string
  | TASK_FAILED string
  | REPLAN string

section \<open>Constants (src/shared/constants.ts)\<close>

text \<open>
  The executor reads the two budgets \<^verbatim>\<open>MAX_STEPS\<close> and \<^verbatim>\<open>MAX_REPLANS\<close>. They are
  parameters of the model, so that the theorems hold for every configuration; the
  values of the source are \<open>default_config\<close>.
\<close>

record Config =
  MAX_STEPS :: nat
  MAX_REPLANS :: nat

definition default_config :: Config where
  "default_config = \<lparr>MAX_STEPS = 15, MAX_REPLANS = 2\<rparr>"

section \<open>The collaborators of the executor\<close>

text \<open>
  What \<^verbatim>\<open>planner.createPlan\<close> can hand back at run time, as far as the executor's
  check \<^verbatim>\<open>!steps || !Array.isArray(steps) || steps.length === 0\<close> can tell:
  \<open>StepsMissing\<close> when \<^verbatim>\<open>plan?.plan?.steps\<close> is undefined (or any other falsy value),
  \<open>StepsNotArray\<close> when it is a truthy value that is no array, and otherwise a plan
  whose steps are a list.
\<close>

datatype planner_result = StepsMissing | StepsNotArray | Plan PlannerOutput

text \<open>The first result of \<^verbatim>\<open>chrome.tabs.query\<close>, with its optional fields.\<close>

record Tab =
  tab_url :: "string option"
  tab_title :: "string option"

text \<open>
  The collaborators are asynchronous functions whose answers the executor cannot
  influence: the language model, the planner, the navigator, the page bridge
  (\<^verbatim>\<open>getDOMState\<close>, \<^verbatim>\<open>executeAction\<close>), the browser's tab query and the clock. One run
  meets one sequence of answers, so the environment is a script: each loop iteration
  calls each collaborator at most once, and the answer given in iteration \<open>step\<close> is
  the value of the field at \<open>step\<close>. A thrown error is \<open>Inl\<close> of its message (the
  \<^verbatim>\<open>errorMsg\<close> of the source). \<open>cancel_called env step\<close> says that \<^verbatim>\<open>cancel()\<close> was
  invoked while the run was suspended between the previous cancellation check (or the
  start of the run, for step 0) and the check at the top of iteration \<open>step\<close>.
\<close>

record Env =
  initialize_progress :: "real list"
  initialize :: "string + unit"
  createPlan :: "string + planner_result"
  getDOMState :: "nat \<Rightarrow> string + DOMState"
  tabs_query :: "nat \<Rightarrow> string + Tab option"
  getNextAction :: "nat \<Rightarrow> string + NavigatorOutput"
  executeAction :: "nat \<Rightarrow> string + ActionResult"
  replan :: "nat \<Rightarrow> string + PlannerOutput"
  now :: "nat \<Rightarrow> nat"
  cancel_called :: "nat \<Rightarrow> bool"

section \<open>The executor (src/background/agents/executor.ts)\<close>

text \<open>
  Everything the executor does to the outside is an effect: an event handed to the
  listeners by \<^verbatim>\<open>emit\<close>, or a call of a collaborator. A run appends its effects, in
  order, to a trace.
\<close>

datatype effect =
    Emit ExecutorEvent
  | LlmInitialize "string option"
  | CreatePlan string
  | Replan string
  | PlannerReset
  | NavigatorReset
  | GetDOMState
  | TabsQuery
  | GetNextAction DOMState
  | ExecuteAction ActionType "(string \<times> string) list"

text \<open>The fields of the class (\<^verbatim>\<open>context\<close> is a keyword, so the field is
  \<open>current_context\<close>), and the state of a run: the fields and the trace.\<close>

record Executor =
  isRunning :: bool
  shouldCancel :: bool
  current_context :: "AgentContext option"

record run_state = Executor +
  trace :: "effect list"

text \<open>How \<^verbatim>\<open>executeTask\<close> ends: the promise resolves with a string or rejects with an error.\<close>

datatype outcome = Resolved string | Rejected string

text \<open>How one pass through the loop body ends; \<open>Continue\<close> carries the loop's counters
  \<^verbatim>\<open>replans\<close> and \<^verbatim>\<open>consecutiveFailures\<close>.\<close>

datatype flow = Continue nat nat | Return string | Throw string

definition call :: "effect \<Rightarrow> run_state \<Rightarrow> run_state" where
  "call e st = st\<lparr>trace := trace st @ [e]\<rparr>"

definition emit :: "ExecutorEvent \<Rightarrow> run_state \<Rightarrow> run_state" where
  "emit ev st = call (Emit ev) st"

text \<open>\<^verbatim>\<open>v || d\<close> on an optional string: undefined and the empty string are falsy.\<close>

definition or_else :: "string option \<Rightarrow> string \<Rightarrow> string" where
  "or_else v d = (case v of None \<Rightarrow> d | Some s \<Rightarrow> if s = [] then d else s)"

definition digit_char :: "nat \<Rightarrow> char" where
  "digit_char d = ''0123456789'' ! (d mod 10)"

text \<open>The decimal digits of a number, as the template literal prints \<^verbatim>\<open>MAX_STEPS\<close>.\<close>

fun string_of_nat :: "nat \<Rightarrow> string" where
  "string_of_nat n =
     (if n < 10 then [digit_char n] else string_of_nat (n div 10) @ [digit_char n])"

declare string_of_nat.simps [simp del]

definition fallback_plan :: PlannerOutput where
  "fallback_plan =
     \<lparr>current_state = \<lparr>analysis = ''Task analysis'', memory = []\<rparr>,
      plan = \<lparr>thought = ''Executing task directly'',
              steps = [''Analyze the current page'', ''Complete the requested task''],
              success_criteria = ''Task completed successfully''\<rparr>\<rparr>"

text \<open>Lines 94-110: the plan that enters the context after \<^verbatim>\<open>createPlan\<close>.\<close>

definition validate_plan :: "planner_result \<Rightarrow> PlannerOutput" where
  "validate_plan r =
     (case r of
        StepsMissing \<Rightarrow> fallback_plan
      | StepsNotArray \<Rightarrow> fallback_plan
      | Plan p \<Rightarrow> if steps (plan p) = [] then fallback_plan else p)"

text \<open>
  \<^verbatim>\<open>this.context.plan = p\<close> and \<^verbatim>\<open>this.context.history.push(entry)\<close>. The context is
  set before the loop starts and nulled by \<^verbatim>\<open>reset()\<close> only, so inside a run it is
  never null; on a null context these updates do nothing.
\<close>

definition set_plan :: "PlannerOutput \<Rightarrow> run_state \<Rightarrow> run_state" where
  "set_plan p st = st\<lparr>current_context := map_option (\<lambda>c. c\<lparr>ctx_plan := Some p\<rparr>) (current_context st)\<rparr>"

definition push_history :: "AgentStep \<Rightarrow> run_state \<Rightarrow> run_state" where
  "push_history entry st =
     st\<lparr>current_context := map_option (\<lambda>c. c\<lparr>history := history c @ [entry]\<rparr>) (current_context st)\<rparr>"

text \<open>
  Lines 131-165: read the page; when that throws, ask the browser for the active tab
  and build a degraded page state.
\<close>

definition read_page :: "Env \<Rightarrow> nat \<Rightarrow> run_state \<Rightarrow> DOMState \<times> run_state" where
  "read_page env step st =
     (case getDOMState env step of
        Inr domState \<Rightarrow> (domState, call GetDOMState st)
      | Inl errorMsg \<Rightarrow>
          (let tab = (case tabs_query env step of Inl _ \<Rightarrow> None | Inr t \<Rightarrow> t);
               tabUrl = (case tab of None \<Rightarrow> ''unknown''
                         | Some t \<Rightarrow> or_else (tab_url t) ''unknown'');
               tabTitle = (case tab of None \<Rightarrow> ''Unknown page''
                           | Some t \<Rightarrow> or_else (tab_title t) ''Unknown'');
               isRestricted = (prefix ''chrome://'' tabUrl \<or>
                               prefix ''chrome-extension://'' tabUrl \<or>
                               prefix ''about:'' tabUrl \<or>
                               tabUrl = ''chrome://newtab/'' \<or>
                               tabUrl = ''unknown'')
           in (\<lparr>url = tabUrl, title = tabTitle, interactiveElements = [],
                pageText =
                  (if isRestricted
                   then ''RESTRICTED PAGE: Cannot interact with this page. Use \"navigate\" action to go to a website first (e.g., navigate to https://google.com).''
                   else ''Page content not available. Try navigating to a different page.'')\<rparr>,
               call TabsQuery (call GetDOMState st))))"

text \<open>
  The re-planning sequence, written out three times in the source (lines 177-181,
  212-216, 258-265): emit \<^verbatim>\<open>REPLAN\<close>, reset the navigator, await \<^verbatim>\<open>planner.replan\<close>,
  store its plan unchecked, emit \<^verbatim>\<open>PLAN_COMPLETE\<close>. \<open>Inl\<close> is the error thrown by
  \<^verbatim>\<open>replan\<close>, which no handler of the loop catches.
\<close>

definition do_replan ::
  "Env \<Rightarrow> nat \<Rightarrow> string \<Rightarrow> string \<Rightarrow> run_state \<Rightarrow> (string \<times> run_state) + run_state" where
  "do_replan env step event_reason replan_reason st =
     (let st1 = call (Replan replan_reason) (call NavigatorReset (emit (REPLAN event_reason) st))
      in case replan env step of
           Inl e \<Rightarrow> Inl (e, st1)
         | Inr p \<Rightarrow> Inr (emit (PLAN_COMPLETE (steps (plan p))) (set_plan p st1)))"

text \<open>Lines 200-271: the loop body from the terminal actions on.\<close>

definition handle_action ::
  "Config \<Rightarrow> Env \<Rightarrow> nat \<Rightarrow> nat \<Rightarrow> nat \<Rightarrow> NavigatorAction \<Rightarrow> run_state \<Rightarrow> flow \<times> run_state" where
  "handle_action cfg env step replans consecutiveFailures a st =
     (if action_type a = Done then
        (let result = or_else (map_of (parameters a) ''result'') ''Task completed successfully''
         in (Return result, emit (TASK_COMPLETE result) st))
      else if action_type a = Fail then
        (let reason = or_else (map_of (parameters a) ''reason'') ''Unknown failure''
         in if replans < MAX_REPLANS cfg then
              (case do_replan env step reason reason st of
                 Inl (e, st') \<Rightarrow> (Throw e, st')
               | Inr st' \<Rightarrow> (Continue (replans + 1) 0, st'))
            else (Throw reason, emit (TASK_FAILED reason) st))
      else
        (let result = (case executeAction env step of
                         Inr r \<Rightarrow> r
                       | Inl msg \<Rightarrow> \<lparr>success = False, data = None, error = Some msg\<rparr>);
             st1 = emit (STEP_RESULT (success result) (data result))
                     (call (ExecuteAction (action_type a) (parameters a)) st);
             st2 = push_history
                     \<lparr>step_action = a, step_result = result, timestamp = now env step\<rparr> st1
         in if \<not> success result then
              (if 3 \<le> consecutiveFailures + 1 \<and> replans < MAX_REPLANS cfg then
                 (case do_replan env step
                         (or_else (error result) ''Multiple consecutive failures'')
                         (or_else (error result) ''Multiple action failures'') st2 of
                    Inl (e, st') \<Rightarrow> (Throw e, st')
                  | Inr st' \<Rightarrow> (Continue (replans + 1) 0, st'))
               else (Continue replans (consecutiveFailures + 1), st2))
            else (Continue replans 0, st2)))"

text \<open>
  Lines 125-198: one pass through the loop body. \<^verbatim>\<open>cancel()\<close> only sets the flag, and
  the flag is read here only, so a call of \<^verbatim>\<open>cancel()\<close> since the last check shows as
  the flag being set at this check. A call of \<^verbatim>\<open>cancel()\<close> that no later check reads
  is not recorded: the next \<^verbatim>\<open>executeTask\<close> clears the flag before it reads it.
  Writes to the console are left out.
\<close>

definition iteration ::
  "Config \<Rightarrow> Env \<Rightarrow> nat \<Rightarrow> nat \<Rightarrow> nat \<Rightarrow> run_state \<Rightarrow> flow \<times> run_state" where
  "iteration cfg env step replans consecutiveFailures st =
     (if shouldCancel st \<or> cancel_called env step then
        (Throw ''Task cancelled by user'', st\<lparr>shouldCancel := True\<rparr>)
      else
        (let (domState, st1) = read_page env step (emit (STEP_START (step + 1)) st);
             st2 = call (GetNextAction domState) st1
         in case getNextAction env step of
              Inl errorMsg \<Rightarrow>
                (if replans < MAX_REPLANS cfg then
                   (case do_replan env step (''Navigator error: '' @ errorMsg) errorMsg st2 of
                      Inl (e, st') \<Rightarrow> (Throw e, st')
                    | Inr st' \<Rightarrow> (Continue (replans + 1) consecutiveFailures, st'))
                 else (Throw errorMsg, emit (TASK_FAILED (''Navigator error: '' @ errorMsg)) st2))
            | Inr out \<Rightarrow>
                handle_action cfg env step replans consecutiveFailures (action out)
                  (emit (STEP_ACTION (action_type (action out)) (parameters (action out))) st2)))"

definition max_steps_error :: "Config \<Rightarrow> string" where
  "max_steps_error cfg =
     ''Maximum steps ('' @ string_of_nat (MAX_STEPS cfg) @ '') exceeded without completing task''"

text \<open>Lines 124-277: \<^verbatim>\<open>for (let step = 0; step < MAX_STEPS; step++)\<close> and what follows it.\<close>

function loop ::
  "Config \<Rightarrow> Env \<Rightarrow> nat \<Rightarrow> nat \<Rightarrow> nat \<Rightarrow> run_state \<Rightarrow> outcome \<times> run_state" where
  "loop cfg env step replans consecutiveFailures st =
     (if step < MAX_STEPS cfg then
        (case iteration cfg env step replans consecutiveFailures st of
           (Continue replans' consecutiveFailures', st') \<Rightarrow>
             loop cfg env (Suc step) replans' consecutiveFailures' st'
         | (Return result, st') \<Rightarrow> (Resolved result, st')
         | (Throw e, st') \<Rightarrow> (Rejected e, st'))
      else (Rejected (max_steps_error cfg), emit (TASK_FAILED (max_steps_error cfg)) st))"
  by pat_completeness auto
termination
  by (relation "measure (\<lambda>(cfg, env, step, replans, consecutiveFailures, st). MAX_STEPS cfg - step)")
     auto

declare loop.simps [simp del]

text \<open>
  Lines 65-118, the first two phases inside the \<^verbatim>\<open>try\<close> block: load the model,
  re-emitting its progress reports, then create the context and the plan. \<open>Inl\<close> is
  a run that ends here; \<open>Inr\<close> is the state in which the loop starts.
\<close>

definition prepare ::
  "Env \<Rightarrow> string \<Rightarrow> string option \<Rightarrow> run_state \<Rightarrow> (outcome \<times> run_state) + run_state" where
  "prepare env task_text modelId st =
     (let st1 = foldl (\<lambda>s p. emit (INIT_PROGRESS p) s)
                  (call (LlmInitialize modelId) (emit INIT_START st))
                  (initialize_progress env)
      in case initialize env of
           Inl errorMsg \<Rightarrow>
             Inl (Rejected errorMsg,
                  emit (TASK_FAILED (''LLM initialization failed: '' @ errorMsg)) st1)
         | Inr _ \<Rightarrow>
             (let st2 = (emit INIT_COMPLETE st1)
                          \<lparr>current_context :=
                             Some \<lparr>task = task_text, ctx_plan = None, history = []\<rparr>\<rparr>;
                  st3 = call (CreatePlan task_text) (emit PLAN_START st2)
              in case createPlan env of
                   Inl errorMsg \<Rightarrow>
                     Inl (Rejected errorMsg,
                          emit (TASK_FAILED (''Planning failed: '' @ errorMsg)) st3)
                 | Inr r \<Rightarrow>
                     Inr (emit (PLAN_COMPLETE (steps (plan (validate_plan r))))
                            (set_plan (validate_plan r) st3))))"

text \<open>Lines 64-277: the body of the \<^verbatim>\<open>try\<close> block.\<close>

definition run :: "Config \<Rightarrow> Env \<Rightarrow> string \<Rightarrow> string option \<Rightarrow> run_state \<Rightarrow> outcome \<times> run_state" where
  "run cfg env task_text modelId st =
     (case prepare env task_text modelId st of
        Inl ended \<Rightarrow> ended
      | Inr st' \<Rightarrow> loop cfg env 0 0 0 st')"

text \<open>Lines 314-318 and the \<^verbatim>\<open>finally\<close> block, lines 278-281.\<close>

definition reset :: "run_state \<Rightarrow> run_state" where
  "reset st = (call NavigatorReset (call PlannerReset st))\<lparr>current_context := None\<rparr>"

definition finalizer :: "run_state \<Rightarrow> run_state" where
  "finalizer st = reset (st\<lparr>isRunning := False\<rparr>)"

text \<open>
  \<^verbatim>\<open>executeTask\<close>, lines 51-282. The result is how the promise settles, the fields of
  the executor afterwards, and the effects of this call in order.
\<close>

definition start :: "Executor \<Rightarrow> run_state" where
  "start ex = \<lparr>isRunning = True, shouldCancel = False, current_context = current_context ex,
              trace = []\<rparr>"

definition fields :: "run_state \<Rightarrow> Executor" where
  "fields st = \<lparr>isRunning = isRunning st, shouldCancel = shouldCancel st,
                current_context = current_context st\<rparr>"

definition executeTask ::
  "Config \<Rightarrow> Env \<Rightarrow> string \<Rightarrow> string option \<Rightarrow> Executor \<Rightarrow> outcome \<times> Executor \<times> effect list" where
  "executeTask cfg env task_text modelId ex =
     (if isRunning ex then (Rejected ''Executor is already running a task'', ex, [])
      else
        (let (out, st) = run cfg env task_text modelId (start ex);
             st' = finalizer st
         in (out, fields st', trace st')))"

section \<open>Observations on a run\<close>

text \<open>The events of a trace, in the order of emission.\<close>

definition events_of :: "effect list \<Rightarrow> ExecutorEvent list" where
  "events_of tr = concat (map (\<lambda>e. case e of Emit ev \<Rightarrow> [ev] | _ \<Rightarrow> []) tr)"

fun is_terminal :: "ExecutorEvent \<Rightarrow> bool" where
  "is_terminal (TASK_COMPLETE _) = True"
| "is_terminal (TASK_FAILED _) = True"
| "is_terminal _ = False"

fun is_REPLAN :: "ExecutorEvent \<Rightarrow> bool" where
  "is_REPLAN (REPLAN _) = True"
| "is_REPLAN _ = False"

fun is_STEP_START :: "ExecutorEvent \<Rightarrow> bool" where
  "is_STEP_START (STEP_START _) = True"
| "is_STEP_START _ = False"

text \<open>The calls of the page bridge: \<^verbatim>\<open>getDOMState\<close> and \<^verbatim>\<open>executeAction\<close>.\<close>

fun is_page_bridge_call :: "effect \<Rightarrow> bool" where
  "is_page_bridge_call GetDOMState = True"
| "is_page_bridge_call (ExecuteAction _ _) = True"
| "is_page_bridge_call _ = False"

fun is_ExecuteAction :: "effect \<Rightarrow> bool" where
  "is_ExecuteAction (ExecuteAction _ _) = True"
| "is_ExecuteAction _ = False"

fun is_Replan :: "effect \<Rightarrow> bool" where
  "is_Replan (Replan _) = True"
| "is_Replan _ = False"

text \<open>How many \<^verbatim>\<open>REPLAN\<close> and \<^verbatim>\<open>STEP_START\<close> events a list of effects holds.\<close>

definition new_replans :: "effect list \<Rightarrow> nat" where
  "new_replans efs = length (filter is_REPLAN (events_of efs))"

definition new_steps :: "effect list \<Rightarrow> nat" where
  "new_steps efs = length (filter is_STEP_START (events_of efs))"

text \<open>The page bridge's part of the effects of reading the page in pass \<open>step\<close>.\<close>

definition page_read_effects :: "Env \<Rightarrow> nat \<Rightarrow> effect list" where
  "page_read_effects env step =
     (case getDOMState env step of
        Inr _ \<Rightarrow> [GetDOMState]
      | Inl _ \<Rightarrow> [GetDOMState, TabsQuery])"

text \<open>
  What every pass through the loop body adds to the trace: at most one \<^verbatim>\<open>STEP_START\<close>;
  as many calls of \<^verbatim>\<open>planner.replan\<close> as \<^verbatim>\<open>REPLAN\<close> events, within the budget; and when
  the loop goes on, the counter \<^verbatim>\<open>replans\<close> has grown by that number, no terminal event
  was emitted and the flags are as before.
\<close>

definition pass_ok ::
  "Config \<Rightarrow> nat \<Rightarrow> run_state \<Rightarrow> flow \<Rightarrow> run_state \<Rightarrow> effect list \<Rightarrow> bool" where
  "pass_ok cfg r st f st' efs \<longleftrightarrow>
     trace st' = trace st @ efs \<and>
     length (filter is_Replan efs) = new_replans efs \<and>
     (r \<le> MAX_REPLANS cfg \<longrightarrow> r + new_replans efs \<le> MAX_REPLANS cfg) \<and>
     isRunning st' = isRunning st \<and>
     (case f of
        Continue r' c' \<Rightarrow>
          r' = r + new_replans efs \<and> shouldCancel st' = shouldCancel st \<and>
          filter is_terminal (events_of efs) = []
      | _ \<Rightarrow> True)"

text \<open>
  \<open>iterations cfg env k st\<close> runs the first \<open>k\<close> passes of the loop from the state
  \<open>st\<close> in which the loop starts. It is \<open>Some\<close> of the counters \<^verbatim>\<open>replans\<close> and
  \<^verbatim>\<open>consecutiveFailures\<close> and of the state at the top of pass \<open>k\<close> when each of these
  passes ran to its end and went on to the next, and \<open>None\<close> when one of them returned
  or threw, or the step budget ended the loop before.
\<close>

primrec iterations :: "Config \<Rightarrow> Env \<Rightarrow> nat \<Rightarrow> run_state \<Rightarrow> (nat \<times> nat \<times> run_state) option" where
  "iterations cfg env 0 st = Some (0, 0, st)"
| "iterations cfg env (Suc k) st =
     (case iterations cfg env k st of
        None \<Rightarrow> None
      | Some (replans, consecutiveFailures, st') \<Rightarrow>
          (if k < MAX_STEPS cfg then
             (case iteration cfg env k replans consecutiveFailures st' of
                (Continue replans' consecutiveFailures', st'') \<Rightarrow>
                  Some (replans', consecutiveFailures', st'')
              | _ \<Rightarrow> None)
           else None))"

text \<open>
  \<open>at_boundary cfg env task_text modelId ex k\<close>: the call of \<^verbatim>\<open>executeTask\<close> passed the
  guard, loaded the model, made its plan and ran \<open>k\<close> passes of the loop; the value is
  the counters and the state at the top of pass \<open>k\<close>, before the cancellation check.
\<close>

definition at_boundary ::
  "Config \<Rightarrow> Env \<Rightarrow> string \<Rightarrow> string option \<Rightarrow> Executor \<Rightarrow> nat \<Rightarrow> (nat \<times> nat \<times> run_state) option" where
  "at_boundary cfg env task_text modelId ex k =
     (if isRunning ex then None
      else case prepare env task_text modelId (start ex) of
             Inl _ \<Rightarrow> None
           | Inr st \<Rightarrow> iterations cfg env k st)"

text \<open>No terminal event among the events of the effects, except perhaps the last one.\<close>

definition terminal_only_last :: "effect list \<Rightarrow> bool" where
  "terminal_only_last efs \<longleftrightarrow> filter is_terminal (butlast (events_of efs)) = []"

text \<open>
  A summary of a call: how the promise settled, how many passes of the loop began
  (\<^verbatim>\<open>STEP_START\<close> events) and how many actions were performed through the page bridge.
\<close>

definition run_summary :: "outcome \<times> Executor \<times> effect list \<Rightarrow> outcome \<times> nat \<times> nat" where
  "run_summary res =
     (case res of (out, ex', tr) \<Rightarrow> (out, new_steps tr, length (filter is_ExecuteAction tr)))"

section \<open>Environments for the examples\<close>

definition a_plan :: PlannerOutput where
  "a_plan =
     \<lparr>current_state = \<lparr>analysis = ''Open a page'', memory = []\<rparr>,
      plan = \<lparr>thought = ''Go there'', steps = [''Open example.com''],
              success_criteria = ''The page is open''\<rparr>\<rparr>"

definition a_page :: DOMState where
  "a_page = \<lparr>url = ''https://example.com'', title = ''Example'', interactiveElements = [],
             pageText = ''Example Domain''\<rparr>"

definition navigator_says :: "ActionType \<Rightarrow> (string \<times> string) list \<Rightarrow> NavigatorOutput" where
  "navigator_says k ps =
     \<lparr>nav_current_state = \<lparr>page_summary = [], relevant_elements = [], progress = []\<rparr>,
      action = \<lparr>action_thought = [], action_type = k, parameters = ps\<rparr>\<rparr>"

definition succeeded :: ActionResult where
  "succeeded = \<lparr>success = True, data = None, error = None\<rparr>"

definition failed :: ActionResult where
  "failed = \<lparr>success = False, data = None, error = Some ''Element not found''\<rparr>"

text \<open>Every collaborator answers; the navigator clicks forever and every click succeeds.\<close>

definition env_ok :: Env where
  "env_ok =
     \<lparr>initialize_progress = [], initialize = Inr (), createPlan = Inr (Plan a_plan),
      getDOMState = (\<lambda>_. Inr a_page), tabs_query = (\<lambda>_. Inr None),
      getNextAction = (\<lambda>_. Inr (navigator_says Click [(''selector'', ''#go'')])),
      executeAction = (\<lambda>_. Inr succeeded),
      replan = (\<lambda>_. Inr a_plan), now = (\<lambda>i. i), cancel_called = (\<lambda>_. False)\<rparr>"

definition idle :: Executor where
  "idle = \<lparr>isRunning = False, shouldCancel = False, current_context = None\<rparr>"

text \<open>The navigator throws on every call.\<close>

definition env_navigator_fails :: Env where
  "env_navigator_fails = env_ok\<lparr>getNextAction := (\<lambda>_. Inl ''Failed to parse response'')\<rparr>"

text \<open>The navigator throws on its first call only.\<close>

definition env_one_navigator_error :: Env where
  "env_one_navigator_error =
     env_ok\<lparr>getNextAction :=
              (\<lambda>i. if i = 0 then Inl ''Failed to parse response''
                   else Inr (navigator_says Click [(''selector'', ''#go'')]))\<rparr>"

text \<open>The scenario of the specification: navigate, then done with a result.\<close>

definition env_visit :: Env where
  "env_visit =
     env_ok\<lparr>getNextAction :=
              (\<lambda>i. if i = 0 then Inr (navigator_says Navigate [(''url'', ''example.com'')])
                   else Inr (navigator_says Done [(''result'', ''Visited example.com'')]))\<rparr>"

text \<open>The navigator is done at once, with an empty result string.\<close>

definition env_done_empty :: Env where
  "env_done_empty = env_ok\<lparr>getNextAction := (\<lambda>_. Inr (navigator_says Done [(''result'', [])]))\<rparr>"

definition empty_plan :: PlannerOutput where
  "empty_plan =
     \<lparr>current_state = \<lparr>analysis = ''Nothing is left to try'', memory = []\<rparr>,
      plan = \<lparr>thought = ''No idea'', steps = [], success_criteria = ''None''\<rparr>\<rparr>"

text \<open>The navigator throws once, the planner answers with a plan without steps, and
  the navigator is done on its second call.\<close>

definition env_empty_replan :: Env where
  "env_empty_replan =
     env_ok\<lparr>getNextAction :=
              (\<lambda>i. if i = 0 then Inl ''Failed to parse response''
                   else Inr (navigator_says Done [(''result'', ''Gave up'')])),
            replan := (\<lambda>_. Inr empty_plan)\<rparr>"

text \<open>Every click fails.\<close>

definition env_failing_actions :: Env where
  "env_failing_actions = env_ok\<lparr>executeAction := (\<lambda>_. Inr failed)\<rparr>"

text \<open>\<^verbatim>\<open>cancel()\<close> is called while the second pass of the loop is under way.\<close>

definition env_cancelled :: Env where
  "env_cancelled = env_ok\<lparr>cancel_called := (\<lambda>i. i = 2)\<rparr>"

text \<open>\<^verbatim>\<open>cancel()\<close> is called while the model loads.\<close>

definition env_cancelled_early :: Env where
  "env_cancelled_early = env_ok\<lparr>cancel_called := (\<lambda>i. i = 0)\<rparr>"

text \<open>An executor in the middle of an earlier run.\<close>

definition busy :: Executor where
  "busy = \<lparr>isRunning = True, shouldCancel = False,
            current_context = Some \<lparr>task = ''an earlier task'', ctx_plan = None, history = []\<rparr>\<rparr>"

section \<open>Effects of the building blocks\<close>

lemma trace_call [simp]: "trace (call e st) = trace st @ [e]"
  by (simp add: call_def)

lemma trace_emit [simp]: "trace (emit ev st) = trace st @ [Emit ev]"
  by (simp add: emit_def)

lemma trace_set_plan [simp]: "trace (set_plan p st) = trace st"
  by (simp add: set_plan_def)

lemma trace_push_history [simp]: "trace (push_history h st) = trace st"
  by (simp add: push_history_def)

lemma flags_call [simp]:
  "shouldCancel (call e st) = shouldCancel st" "isRunning (call e st) = isRunning st"
  "current_context (call e st) = current_context st"
  by (simp_all add: call_def)

lemma flags_emit [simp]:
  "shouldCancel (emit ev st) = shouldCancel st" "isRunning (emit ev st) = isRunning st"
  "current_context (emit ev st) = current_context st"
  by (simp_all add: emit_def)

lemma flags_set_plan [simp]:
  "shouldCancel (set_plan p st) = shouldCancel st" "isRunning (set_plan p st) = isRunning st"
  by (simp_all add: set_plan_def)

lemma flags_push_history [simp]:
  "shouldCancel (push_history h st) = shouldCancel st"
  "isRunning (push_history h st) = isRunning st"
  by (simp_all add: push_history_def)

lemma events_of_Nil [simp]: "events_of [] = []"
  by (simp add: events_of_def)

lemma events_of_append [simp]: "events_of (xs @ ys) = events_of xs @ events_of ys"
  by (simp add: events_of_def)

lemma events_of_Cons [simp]:
  "events_of (e # tr) = (case e of Emit ev \<Rightarrow> [ev] | _ \<Rightarrow> []) @ events_of tr"
  by (simp add: events_of_def)

lemma new_replans_append [simp]: "new_replans (xs @ ys) = new_replans xs + new_replans ys"
  by (simp add: new_replans_def)

lemma new_steps_append [simp]: "new_steps (xs @ ys) = new_steps xs + new_steps ys"
  by (simp add: new_steps_def)

lemma events_page_read_effects [simp]: "events_of (page_read_effects env step) = []"
  by (simp add: page_read_effects_def split: sum.splits)

lemma no_Replan_page_read_effects [simp]: "filter is_Replan (page_read_effects env step) = []"
  by (simp add: page_read_effects_def split: sum.splits)

lemma read_page_effects:
  "read_page env step st = (d, st') \<Longrightarrow>
     trace st' = trace st @ page_read_effects env step \<and>
     shouldCancel st' = shouldCancel st \<and> isRunning st' = isRunning st \<and>
     current_context st' = current_context st"
  by (auto simp: read_page_def page_read_effects_def Let_def split: sum.splits)

lemma do_replan_Inr:
  "do_replan env step er rr st = Inr st' \<Longrightarrow>
     \<exists>p. replan env step = Inr p \<and>
         trace st' = trace st @ [Emit (REPLAN er), NavigatorReset, Replan rr,
                                 Emit (PLAN_COMPLETE (steps (plan p)))] \<and>
         shouldCancel st' = shouldCancel st \<and> isRunning st' = isRunning st \<and>
         current_context st' = map_option (\<lambda>c. c\<lparr>ctx_plan := Some p\<rparr>) (current_context st)"
  by (auto simp: do_replan_def Let_def set_plan_def call_def emit_def split: sum.splits)

lemma do_replan_Inl:
  "do_replan env step er rr st = Inl (e, st') \<Longrightarrow>
     replan env step = Inl e \<and>
     trace st' = trace st @ [Emit (REPLAN er), NavigatorReset, Replan rr] \<and>
     shouldCancel st' = shouldCancel st \<and> isRunning st' = isRunning st"
  by (auto simp: do_replan_def Let_def split: sum.splits)

lemma handle_action_effects:
  assumes "handle_action cfg env step r c a st = (f, st')"
  shows "\<exists>efs. pass_ok cfg r st f st' efs \<and> new_steps efs = 0"
  using assms
  by (auto simp: handle_action_def Let_def new_steps_def new_replans_def pass_ok_def
      split: if_splits sum.splits prod.splits dest!: do_replan_Inr do_replan_Inl)

lemma iteration_effects:
  assumes "iteration cfg env step r c st = (f, st')"
  shows "\<exists>efs. pass_ok cfg r st f st' efs \<and> new_steps efs \<le> 1"
proof (cases "shouldCancel st \<or> cancel_called env step")
  case True
  with assms show ?thesis
    by (auto simp: iteration_def new_steps_def new_replans_def pass_ok_def)
next
  case False
  obtain d st1 where rp: "read_page env step (emit (STEP_START (step + 1)) st) = (d, st1)"
    by (cases "read_page env step (emit (STEP_START (step + 1)) st)")
  note tr1 = read_page_effects [OF rp]
  show ?thesis
  proof (cases "getNextAction env step")
    case (Inl errorMsg)
    with assms False rp tr1 show ?thesis
      by (auto simp: iteration_def Let_def new_steps_def new_replans_def pass_ok_def
          split: if_splits sum.splits prod.splits dest!: do_replan_Inr do_replan_Inl)
  next
    case (Inr out)
    with assms False rp have
      "handle_action cfg env step r c (action out)
         (emit (STEP_ACTION (action_type (action out)) (parameters (action out)))
            (call (GetNextAction d) st1)) = (f, st')"
      by (simp add: iteration_def Let_def)
    from handle_action_effects [OF this] obtain efs where
      e: "pass_ok cfg r
            (emit (STEP_ACTION (action_type (action out)) (parameters (action out)))
               (call (GetNextAction d) st1)) f st' efs" "new_steps efs = 0"
      by blast
    let ?efs = "Emit (STEP_START (step + 1)) # page_read_effects env step @
                [GetNextAction d,
                 Emit (STEP_ACTION (action_type (action out)) (parameters (action out)))] @ efs"
    from e tr1 have "pass_ok cfg r st f st' ?efs \<and> new_steps ?efs \<le> 1"
      by (simp add: pass_ok_def new_steps_def new_replans_def split: flow.splits)
    then show ?thesis by blast
  qed
qed

lemma loop_exhausted:
  "\<not> step < MAX_STEPS cfg \<Longrightarrow>
     loop cfg env step r c st =
       (Rejected (max_steps_error cfg), emit (TASK_FAILED (max_steps_error cfg)) st)"
  by (subst loop.simps) simp

lemma loop_pass:
  "step < MAX_STEPS cfg \<Longrightarrow>
     loop cfg env step r c st =
       (case iteration cfg env step r c st of
          (Continue r' c', st') \<Rightarrow> loop cfg env (Suc step) r' c' st'
        | (Return result, st') \<Rightarrow> (Resolved result, st')
        | (Throw e, st') \<Rightarrow> (Rejected e, st'))"
  by (subst loop.simps) simp

lemma loop_effects:
  "r \<le> MAX_REPLANS cfg \<Longrightarrow> step \<le> MAX_STEPS cfg \<Longrightarrow> loop cfg env step r c st = (out, st') \<Longrightarrow>
     \<exists>efs. trace st' = trace st @ efs \<and>
           step + new_steps efs \<le> MAX_STEPS cfg \<and>
           r + new_replans efs \<le> MAX_REPLANS cfg \<and>
           length (filter is_Replan efs) = new_replans efs \<and>
           isRunning st' = isRunning st"
proof (induction cfg env step r c st rule: loop.induct)
  case (1 cfg env step r c st)
  show ?case
  proof (cases "step < MAX_STEPS cfg")
    case False
    with "1.prems" have "st' = emit (TASK_FAILED (max_steps_error cfg)) st"
      by (simp add: loop_exhausted)
    with "1.prems" show ?thesis
      by (simp add: new_steps_def new_replans_def)
  next
    case True
    obtain f st1 where it: "iteration cfg env step r c st = (f, st1)"
      by (cases "iteration cfg env step r c st")
    from iteration_effects [OF it] obtain efs where
      p: "pass_ok cfg r st f st1 efs" and s: "new_steps efs \<le> 1"
      by blast
    show ?thesis
    proof (cases f)
      case (Continue r' c')
      with it True "1.prems" have l: "loop cfg env (Suc step) r' c' st1 = (out, st')"
        by (simp add: loop_pass)
      from p Continue "1.prems" have r': "r' \<le> MAX_REPLANS cfg" "r' = r + new_replans efs"
        by (auto simp: pass_ok_def)
      from True have "Suc step \<le> MAX_STEPS cfg" by simp
      from "1.IH" [OF True it [symmetric] Continue r'(1) this l]
      obtain efs' where
        "trace st' = trace st1 @ efs'" "Suc step + new_steps efs' \<le> MAX_STEPS cfg"
        "r' + new_replans efs' \<le> MAX_REPLANS cfg"
        "length (filter is_Replan efs') = new_replans efs'" "isRunning st' = isRunning st1"
        by auto
      with p s r' have
        "trace st' = trace st @ (efs @ efs') \<and>
         step + new_steps (efs @ efs') \<le> MAX_STEPS cfg \<and>
         r + new_replans (efs @ efs') \<le> MAX_REPLANS cfg \<and>
         length (filter is_Replan (efs @ efs')) = new_replans (efs @ efs') \<and>
         isRunning st' = isRunning st"
        by (auto simp: pass_ok_def)
      then show ?thesis by blast
    next
      case (Return x)
      with it True "1.prems" have "st' = st1"
        by (simp add: loop_pass)
      with p s True "1.prems" show ?thesis
        by (auto simp: pass_ok_def)
    next
      case (Throw x)
      with it True "1.prems" have "st' = st1"
        by (simp add: loop_pass)
      with p s True "1.prems" show ?thesis
        by (auto simp: pass_ok_def)
    qed
  qed
qed

section \<open>The first two phases\<close>

lemma progress_effects:
  "trace (foldl (\<lambda>s p. emit (INIT_PROGRESS p) s) st ps) =
     trace st @ map (\<lambda>p. Emit (INIT_PROGRESS p)) ps \<and>
   shouldCancel (foldl (\<lambda>s p. emit (INIT_PROGRESS p) s) st ps) = shouldCancel st \<and>
   isRunning (foldl (\<lambda>s p. emit (INIT_PROGRESS p) s) st ps) = isRunning st \<and>
   current_context (foldl (\<lambda>s p. emit (INIT_PROGRESS p) s) st ps) = current_context st"
  by (induction ps arbitrary: st) simp_all

lemma events_of_progress [simp]:
  "events_of (map (\<lambda>p. Emit (INIT_PROGRESS p)) ps) = map INIT_PROGRESS ps"
  by (induction ps) simp_all

lemma filter_progress [simp]:
  "filter is_REPLAN (map INIT_PROGRESS ps) = []"
  "filter is_STEP_START (map INIT_PROGRESS ps) = []"
  "filter is_terminal (map INIT_PROGRESS ps) = []"
  by (induction ps) simp_all

lemma filter_progress_effects [simp]:
  "filter is_Replan (map (\<lambda>p. Emit (INIT_PROGRESS p)) ps) = []"
  "filter is_page_bridge_call (map (\<lambda>p. Emit (INIT_PROGRESS p)) ps) = []"
  by (induction ps) simp_all

lemma context_set_plan:
  "current_context (set_plan p st) = map_option (\<lambda>c. c\<lparr>ctx_plan := Some p\<rparr>) (current_context st)"
  by (simp add: set_plan_def)

text \<open>The effects of the first two phases when both succeed.\<close>

lemma prepare_Inr:
  assumes "prepare env task_text modelId st = Inr st'"
  shows "\<exists>r. initialize env = Inr () \<and> createPlan env = Inr r \<and>
           trace st' = trace st @ [Emit INIT_START, LlmInitialize modelId] @
             map (\<lambda>p. Emit (INIT_PROGRESS p)) (initialize_progress env) @
             [Emit INIT_COMPLETE, Emit PLAN_START, CreatePlan task_text,
              Emit (PLAN_COMPLETE (steps (plan (validate_plan r))))] \<and>
           shouldCancel st' = shouldCancel st \<and> isRunning st' = isRunning st \<and>
           current_context st' =
             Some \<lparr>task = task_text, ctx_plan = Some (validate_plan r), history = []\<rparr>"
  using assms
  by (auto simp: prepare_def Let_def progress_effects context_set_plan split: sum.splits)

lemma prepare_Inl:
  assumes "prepare env task_text modelId st = Inl (out, st')"
  shows "\<exists>efs. trace st' = trace st @ efs \<and> new_steps efs = 0 \<and> new_replans efs = 0 \<and>
           filter is_Replan efs = [] \<and> isRunning st' = isRunning st"
  using assms
  by (auto simp: prepare_def Let_def progress_effects new_steps_def new_replans_def
      split: sum.splits)

lemma prepare_succeeds:
  assumes "initialize env = Inr ()" "createPlan env = Inr r"
  shows "\<exists>st'. prepare env task_text modelId st = Inr st'"
  using assms by (simp add: prepare_def Let_def)

section \<open>The whole call\<close>

lemma trace_finalizer [simp]: "trace (finalizer st) = trace st @ [PlannerReset, NavigatorReset]"
  by (simp add: finalizer_def reset_def)

lemma fields_finalizer [simp]:
  "fields (finalizer st) =
     \<lparr>isRunning = False, shouldCancel = shouldCancel st, current_context = None\<rparr>"
  by (simp add: finalizer_def reset_def fields_def)

lemma executeTask_busy:
  "isRunning ex \<Longrightarrow>
     executeTask cfg env task_text modelId ex =
       (Rejected ''Executor is already running a task'', ex, [])"
  by (simp add: executeTask_def)

lemma executeTask_ended_early:
  assumes "\<not> isRunning ex" "prepare env task_text modelId (start ex) = Inl (out, st)"
  shows "executeTask cfg env task_text modelId ex =
           (out, fields (finalizer st), trace st @ [PlannerReset, NavigatorReset])"
  using assms by (simp add: executeTask_def run_def Let_def)

lemma executeTask_loop:
  assumes "\<not> isRunning ex" "prepare env task_text modelId (start ex) = Inr st0"
    "loop cfg env 0 0 0 st0 = (out, st)"
  shows "executeTask cfg env task_text modelId ex =
           (out, fields (finalizer st), trace st @ [PlannerReset, NavigatorReset])"
  using assms by (simp add: executeTask_def run_def Let_def)

lemma trace_start [simp]: "trace (start ex) = []"
  by (simp add: start_def)

lemma flags_start [simp]: "shouldCancel (start ex) = False" "isRunning (start ex) = True"
  by (simp_all add: start_def)

lemma executeTask_effects:
  assumes "executeTask cfg env task_text modelId ex = (out, ex', tr)"
  shows "new_steps tr \<le> MAX_STEPS cfg \<and> new_replans tr \<le> MAX_REPLANS cfg \<and>
         length (filter is_Replan tr) = new_replans tr"
proof (cases "isRunning ex")
  case True
  with assms show ?thesis
    by (simp add: executeTask_busy new_steps_def new_replans_def)
next
  case False
  show ?thesis
  proof (cases "prepare env task_text modelId (start ex)")
    case (Inl ended)
    obtain o1 st where "ended = (o1, st)" by (cases ended)
    with Inl have p: "prepare env task_text modelId (start ex) = Inl (o1, st)" by simp
    from executeTask_ended_early [OF False p, of cfg] assms
    have tr: "tr = trace st @ [PlannerReset, NavigatorReset]" by simp
    from prepare_Inl [OF p] tr show ?thesis
      by (auto simp: new_steps_def new_replans_def)
  next
    case (Inr st0)
    obtain o1 st where l: "loop cfg env 0 0 0 st0 = (o1, st)"
      by (cases "loop cfg env 0 0 0 st0")
    from executeTask_loop [OF False Inr l] assms
    have tr: "tr = trace st @ [PlannerReset, NavigatorReset]" by simp
    from prepare_Inr [OF Inr] have
      t0: "new_steps (trace st0) = 0" "new_replans (trace st0) = 0"
        "filter is_Replan (trace st0) = []"
      by (auto simp: new_steps_def new_replans_def)
    from loop_effects [OF _ _ l] obtain efs where
      "trace st = trace st0 @ efs" "new_steps efs \<le> MAX_STEPS cfg"
      "new_replans efs \<le> MAX_REPLANS cfg" "length (filter is_Replan efs) = new_replans efs"
      by auto
    with t0 tr show ?thesis
      by (simp add: new_steps_def new_replans_def)
  qed
qed

section \<open>The passes of the loop, case by case\<close>

lemma read_page_snd [simp]:
  "trace (snd (read_page env step st)) = trace st @ page_read_effects env step"
  "shouldCancel (snd (read_page env step st)) = shouldCancel st"
  "isRunning (snd (read_page env step st)) = isRunning st"
  "current_context (snd (read_page env step st)) = current_context st"
  using read_page_effects [of env step st "fst (read_page env step st)" "snd (read_page env step st)"]
  by simp_all

lemma iteration_cancelled:
  "shouldCancel st \<or> cancel_called env step \<Longrightarrow>
     iteration cfg env step r c st = (Throw ''Task cancelled by user'', st\<lparr>shouldCancel := True\<rparr>)"
  by (simp add: iteration_def)

lemma iteration_navigator_error_replan:
  assumes "\<not> shouldCancel st" "\<not> cancel_called env step" "getNextAction env step = Inl e"
    "r < MAX_REPLANS cfg" "replan env step = Inr p"
  shows "\<exists>d st'. iteration cfg env step r c st = (Continue (r + 1) c, st') \<and>
           trace st' = trace st @ Emit (STEP_START (step + 1)) # page_read_effects env step @
             [GetNextAction d, Emit (REPLAN (''Navigator error: '' @ e)), NavigatorReset,
              Replan e, Emit (PLAN_COMPLETE (steps (plan p)))] \<and>
           shouldCancel st' = shouldCancel st \<and>
           current_context st' = map_option (\<lambda>c. c\<lparr>ctx_plan := Some p\<rparr>) (current_context st)"
  using assms
  by (simp add: iteration_def Let_def case_prod_beta do_replan_def context_set_plan)

lemma iteration_navigator_error_fatal:
  assumes "\<not> shouldCancel st" "\<not> cancel_called env step" "getNextAction env step = Inl e"
    "\<not> r < MAX_REPLANS cfg"
  shows "\<exists>d st'. iteration cfg env step r c st = (Throw e, st') \<and>
           trace st' = trace st @ Emit (STEP_START (step + 1)) # page_read_effects env step @
             [GetNextAction d, Emit (TASK_FAILED (''Navigator error: '' @ e))]"
  using assms
  by (simp add: iteration_def Let_def case_prod_beta)

section \<open>Reaching a pass\<close>

lemma iterations_Suc_Some:
  "iterations cfg env (Suc k) st0 = Some (r', c', st') \<longleftrightarrow>
     (\<exists>r c st. iterations cfg env k st0 = Some (r, c, st) \<and> k < MAX_STEPS cfg \<and>
        iteration cfg env k r c st = (Continue r' c', st'))"
  by (auto split: option.splits prod.splits flow.splits if_splits)

lemma loop_iterations:
  "iterations cfg env k st0 = Some (r, c, st) \<Longrightarrow>
     loop cfg env 0 0 0 st0 = loop cfg env k r c st"
proof (induction k arbitrary: r c st)
  case 0
  then show ?case by simp
next
  case (Suc k)
  from Suc.prems obtain r0 c0 st1 where
    k: "iterations cfg env k st0 = Some (r0, c0, st1)" and lt: "k < MAX_STEPS cfg" and
    it: "iteration cfg env k r0 c0 st1 = (Continue r c, st)"
    unfolding iterations_Suc_Some by blast
  from Suc.IH [OF k] have "loop cfg env 0 0 0 st0 = loop cfg env k r0 c0 st1" .
  also from lt it have "\<dots> = loop cfg env (Suc k) r c st"
    by (simp add: loop_pass)
  finally show ?case .
qed

lemma iterations_invariant:
  "iterations cfg env k st0 = Some (r, c, st) \<Longrightarrow>
     k \<le> MAX_STEPS cfg \<and> shouldCancel st = shouldCancel st0 \<and>
     filter is_terminal (events_of (trace st)) = filter is_terminal (events_of (trace st0))"
proof (induction k arbitrary: r c st)
  case 0
  then show ?case by simp
next
  case (Suc k)
  from Suc.prems obtain r0 c0 st1 where
    k: "iterations cfg env k st0 = Some (r0, c0, st1)" and lt: "k < MAX_STEPS cfg" and
    it: "iteration cfg env k r0 c0 st1 = (Continue r c, st)"
    unfolding iterations_Suc_Some by blast
  from iteration_effects [OF it] obtain efs where "pass_ok cfg r0 st1 (Continue r c) st efs"
    by blast
  with Suc.IH [OF k] lt show ?case
    by (simp add: pass_ok_def)
qed

lemma at_boundary_Some:
  assumes "at_boundary cfg env task_text modelId ex k = Some (r, c, st)"
  shows "\<not> isRunning ex \<and> k \<le> MAX_STEPS cfg \<and> \<not> shouldCancel st \<and>
         filter is_terminal (events_of (trace st)) = [] \<and>
         (\<exists>st0. prepare env task_text modelId (start ex) = Inr st0 \<and>
                iterations cfg env k st0 = Some (r, c, st))"
proof -
  from assms have idle: "\<not> isRunning ex"
    by (auto simp: at_boundary_def split: if_splits)
  with assms obtain st0 where
    p: "prepare env task_text modelId (start ex) = Inr st0" and
    i: "iterations cfg env k st0 = Some (r, c, st)"
    by (auto simp: at_boundary_def split: sum.splits)
  from prepare_Inr [OF p] have "\<not> shouldCancel st0" "filter is_terminal (events_of (trace st0)) = []"
    by auto
  with iterations_invariant [OF i] idle p i show ?thesis
    by auto
qed

lemma executeTask_from_boundary:
  assumes "at_boundary cfg env task_text modelId ex k = Some (r, c, st)"
    "loop cfg env k r c st = (out, st')"
  shows "executeTask cfg env task_text modelId ex =
           (out, fields (finalizer st'), trace st' @ [PlannerReset, NavigatorReset])"
proof -
  from at_boundary_Some [OF assms(1)] obtain st0 where
    idle: "\<not> isRunning ex" and p: "prepare env task_text modelId (start ex) = Inr st0" and
    i: "iterations cfg env k st0 = Some (r, c, st)"
    by blast
  from loop_iterations [OF i] assms(2) have "loop cfg env 0 0 0 st0 = (out, st')"
    by simp
  from executeTask_loop [OF idle p this] show ?thesis .
qed

lemma iteration_done:
  assumes "\<not> shouldCancel st" "\<not> cancel_called env step" "getNextAction env step = Inr nav"
    "action_type (action nav) = Done"
  shows "\<exists>d st'. iteration cfg env step r c st =
             (Return (or_else (map_of (parameters (action nav)) ''result'')
                        ''Task completed successfully''), st') \<and>
           trace st' = trace st @ Emit (STEP_START (step + 1)) # page_read_effects env step @
             [GetNextAction d, Emit (STEP_ACTION Done (parameters (action nav))),
              Emit (TASK_COMPLETE (or_else (map_of (parameters (action nav)) ''result'')
                                     ''Task completed successfully''))] \<and>
           shouldCancel st' = shouldCancel st"
  using assms
  by (simp add: iteration_def handle_action_def Let_def case_prod_beta)

lemma loop_continue:
  "step < MAX_STEPS cfg \<Longrightarrow> iteration cfg env step r c st = (Continue r' c', st') \<Longrightarrow>
     loop cfg env step r c st = loop cfg env (Suc step) r' c' st'"
  by (simp add: loop_pass)

lemma loop_return:
  "step < MAX_STEPS cfg \<Longrightarrow> iteration cfg env step r c st = (Return result, st') \<Longrightarrow>
     loop cfg env step r c st = (Resolved result, st')"
  by (simp add: loop_pass)

lemma loop_throw:
  "step < MAX_STEPS cfg \<Longrightarrow> iteration cfg env step r c st = (Throw e, st') \<Longrightarrow>
     loop cfg env step r c st = (Rejected e, st')"
  by (simp add: loop_pass)

lemma no_page_bridge_call_resets [simp]:
  "filter is_page_bridge_call (tr @ [PlannerReset, NavigatorReset]) = filter is_page_bridge_call tr"
  by simp

text \<open>The state in which the loop body handles the navigator's action.\<close>

lemma iteration_action:
  assumes "\<not> shouldCancel st" "\<not> cancel_called env step" "getNextAction env step = Inr nav"
  shows "\<exists>st1. iteration cfg env step r c st = handle_action cfg env step r c (action nav) st1 \<and>
           events_of (trace st1) = events_of (trace st) @
             [STEP_START (step + 1), STEP_ACTION (action_type (action nav)) (parameters (action nav))] \<and>
           filter is_Replan (trace st1) = filter is_Replan (trace st)"
proof -
  let ?st1 = "emit (STEP_ACTION (action_type (action nav)) (parameters (action nav)))
                (call (GetNextAction (fst (read_page env step (emit (STEP_START (step + 1)) st))))
                   (snd (read_page env step (emit (STEP_START (step + 1)) st))))"
  from assms have
    "iteration cfg env step r c st = handle_action cfg env step r c (action nav) ?st1"
    by (simp add: iteration_def Let_def case_prod_beta)
  moreover have "events_of (trace ?st1) = events_of (trace st) @
      [STEP_START (step + 1), STEP_ACTION (action_type (action nav)) (parameters (action nav))]"
    by simp
  moreover have "filter is_Replan (trace ?st1) = filter is_Replan (trace st)"
    by simp
  ultimately show ?thesis
    by blast
qed

text \<open>The part of the loop body that performs the navigator's action and judges its result.\<close>

lemma handle_performed_action:
  assumes "handle_action cfg env step replans consecutiveFailures a st1 = (f, st')"
    "action_type a \<noteq> Done" "action_type a \<noteq> Fail"
    "result = (case executeAction env step of
                 Inr r \<Rightarrow> r
               | Inl msg \<Rightarrow> \<lparr>success = False, data = None, error = Some msg\<rparr>)"
  shows "(success result \<longrightarrow>
            f = Continue replans 0 \<and> new_replans (trace st') = new_replans (trace st1)) \<and>
         (\<not> success result \<and> 3 \<le> consecutiveFailures + 1 \<and> replans < MAX_REPLANS cfg \<longrightarrow>
            new_replans (trace st') = new_replans (trace st1) + 1 \<and>
            length (filter is_Replan (trace st')) = length (filter is_Replan (trace st1)) + 1 \<and>
            (case replan env step of
               Inr p \<Rightarrow> f = Continue (replans + 1) 0
             | Inl e \<Rightarrow> f = Throw e)) \<and>
         (\<not> success result \<and> \<not> (3 \<le> consecutiveFailures + 1 \<and> replans < MAX_REPLANS cfg) \<longrightarrow>
            f = Continue replans (consecutiveFailures + 1) \<and>
            new_replans (trace st') = new_replans (trace st1))"
  using assms
  by (auto simp: handle_action_def do_replan_def Let_def new_replans_def split: sum.splits)

lemma iteration_fail_replan:
  assumes "\<not> shouldCancel st" "\<not> cancel_called env step" "getNextAction env step = Inr nav"
    "action_type (action nav) = Fail" "r < MAX_REPLANS cfg" "replan env step = Inr p"
  shows "\<exists>st'. iteration cfg env step r c st = (Continue (r + 1) 0, st') \<and>
           events_of (trace st') = events_of (trace st) @
             [STEP_START (step + 1), STEP_ACTION Fail (parameters (action nav)),
              REPLAN (or_else (map_of (parameters (action nav)) ''reason'') ''Unknown failure''),
              PLAN_COMPLETE (steps (plan p))]"
  using assms
  by (simp add: iteration_def handle_action_def do_replan_def Let_def case_prod_beta)

lemma initial_plan_has_steps:
  assumes "prepare env task_text modelId st = Inr st'"
  shows "\<exists>r c p. createPlan env = Inr r \<and> current_context st' = Some c \<and> ctx_plan c = Some p \<and>
           steps (plan p) \<noteq> [] \<and>
           p = (case r of
                  StepsMissing \<Rightarrow> fallback_plan
                | StepsNotArray \<Rightarrow> fallback_plan
                | Plan q \<Rightarrow> if steps (plan q) = [] then fallback_plan else q) \<and>
           steps (plan fallback_plan) = [''Analyze the current page'', ''Complete the requested task'']"
  using prepare_Inr [OF assms]
  by (auto simp: validate_plan_def fallback_plan_def split: planner_result.splits)

section \<open>Finalisation\<close>

text \<open>
  Claim C9, as amended. The guard at the head of \<^verbatim>\<open>executeTask\<close> throws before the
  \<^verbatim>\<open>try\<close> block is entered, so a call made while a run is active leaves the executor
  as it is. Every call that passes the guard, however it ends (a result, a failure, a
  cancellation, an error thrown by a collaborator), leaves \<^verbatim>\<open>isRunning\<close> false and the
  context null, and its last two effects are the resets of the planner and of the
  navigator that \<^verbatim>\<open>reset()\<close> makes.
\<close>

theorem executeTask_always_finalizes:
  assumes "\<not> isRunning ex" "executeTask cfg env task_text modelId ex = (out, ex', tr)"
  shows "\<not> isRunning ex' \<and> current_context ex' = None \<and>
         (\<exists>effects. tr = effects @ [PlannerReset, NavigatorReset])"
  using assms
  by (auto simp: executeTask_def Let_def split: prod.splits)

text \<open>A run of the scenario of the specification, from an idle executor.\<close>

theorem executeTask_always_finalizes_witness:
  "\<not> isRunning idle \<and>
   \<not> isRunning (fst (snd (executeTask default_config env_visit ''go to example.com'' None idle))) \<and>
   current_context (fst (snd (executeTask default_config env_visit ''go to example.com'' None idle)))
     = None \<and>
   (\<exists>effects. snd (snd (executeTask default_config env_visit ''go to example.com'' None idle))
      = effects @ [PlannerReset, NavigatorReset])"
proof -
  have idle: "\<not> isRunning idle"
    by (simp add: idle_def)
  have "executeTask default_config env_visit ''go to example.com'' None idle =
          (fst (executeTask default_config env_visit ''go to example.com'' None idle),
           fst (snd (executeTask default_config env_visit ''go to example.com'' None idle)),
           snd (snd (executeTask default_config env_visit ''go to example.com'' None idle)))"
    by simp
  from executeTask_always_finalizes [OF idle this] idle show ?thesis
    by simp
qed

text \<open>
  Claim C9 as it is written fails for the call that the guard rejects: the promise
  rejects, \<^verbatim>\<open>isRunning\<close> stays true, the context stays, and nothing is reset.
\<close>

theorem executeTask_guard_skips_finalizer:
  "executeTask default_config env_ok ''go to example.com'' None busy =
     (Rejected ''Executor is already running a task'', busy, []) \<and>
   isRunning busy \<and> current_context busy \<noteq> None"
  by (simp add: executeTask_def busy_def)

section \<open>The step budget\<close>

text \<open>
  Claim C3. A call of \<^verbatim>\<open>executeTask\<close> emits at most \<^verbatim>\<open>MAX_STEPS\<close> events \<^verbatim>\<open>STEP_START\<close>.
  When the loop has run \<^verbatim>\<open>MAX_STEPS\<close> passes and none of them returned or threw, the
  executor emits \<^verbatim>\<open>TASK_FAILED\<close> with the message "Maximum steps (N) exceeded without
  completing task", as the last event of the run, and the promise rejects with an
  error of that message.
\<close>

theorem step_budget:
  assumes "executeTask cfg env task_text modelId ex = (out, ex', tr)"
  shows "length (filter is_STEP_START (events_of tr)) \<le> MAX_STEPS cfg \<and>
         (\<forall>r c st. at_boundary cfg env task_text modelId ex (MAX_STEPS cfg) = Some (r, c, st) \<longrightarrow>
            out = Rejected (max_steps_error cfg) \<and>
            tr = trace st @ [Emit (TASK_FAILED (max_steps_error cfg)), PlannerReset, NavigatorReset])"
proof (intro conjI allI impI)
  from executeTask_effects [OF assms]
  show "length (filter is_STEP_START (events_of tr)) \<le> MAX_STEPS cfg"
    by (simp add: new_steps_def)
next
  fix r c st
  assume b: "at_boundary cfg env task_text modelId ex (MAX_STEPS cfg) = Some (r, c, st)"
  have "loop cfg env (MAX_STEPS cfg) r c st =
          (Rejected (max_steps_error cfg), emit (TASK_FAILED (max_steps_error cfg)) st)"
    by (simp add: loop_exhausted)
  from executeTask_from_boundary [OF b this] assms
  show "out = Rejected (max_steps_error cfg)"
    and "tr = trace st @ [Emit (TASK_FAILED (max_steps_error cfg)), PlannerReset, NavigatorReset]"
    by simp_all
qed

text \<open>With the budgets of the source and a navigator that clicks forever.\<close>

theorem step_budget_witness:
  "at_boundary default_config env_ok ''go to example.com'' None idle (MAX_STEPS default_config)
     \<noteq> None \<and>
   fst (executeTask default_config env_ok ''go to example.com'' None idle) =
     Rejected ''Maximum steps (15) exceeded without completing task'' \<and>
   length (filter is_STEP_START
     (events_of (snd (snd (executeTask default_config env_ok ''go to example.com'' None idle)))))
     \<le> 15"
proof -
  have b: "at_boundary default_config env_ok ''go to example.com'' None idle
             (MAX_STEPS default_config) \<noteq> None"
    by code_simp
  then obtain r c st where
    s: "at_boundary default_config env_ok ''go to example.com'' None idle
          (MAX_STEPS default_config) = Some (r, c, st)"
    by auto
  have m: "max_steps_error default_config = ''Maximum steps (15) exceeded without completing task''"
    by code_simp
  have n: "MAX_STEPS default_config = 15"
    by (simp add: default_config_def)
  have "executeTask default_config env_ok ''go to example.com'' None idle =
          (fst (executeTask default_config env_ok ''go to example.com'' None idle),
           fst (snd (executeTask default_config env_ok ''go to example.com'' None idle)),
           snd (snd (executeTask default_config env_ok ''go to example.com'' None idle)))"
    by simp
  note budget = step_budget [OF this]
  from budget s have
    "fst (executeTask default_config env_ok ''go to example.com'' None idle) =
       Rejected (max_steps_error default_config)"
    by blast
  moreover from budget have
    "length (filter is_STEP_START
       (events_of (snd (snd (executeTask default_config env_ok ''go to example.com'' None idle)))))
       \<le> MAX_STEPS default_config"
    by (rule conjunct1)
  ultimately show ?thesis
    using b m n by simp
qed

section \<open>The re-planning budget\<close>

text \<open>
  Claim C2. In every call of \<^verbatim>\<open>executeTask\<close> the number of \<^verbatim>\<open>REPLAN\<close> events, which is
  also the number of calls of \<^verbatim>\<open>planner.replan\<close>, is at most \<^verbatim>\<open>MAX_REPLANS\<close>, whatever
  triggers them: a navigator error, a fail action and the failure streak all count in the one
  counter \<^verbatim>\<open>replans\<close>. In particular, with a budget of 2 (and at least 3 steps), when
  the model loads, the planner answers, nobody cancels and the navigator throws on
  every call, the events of the run are exactly the ones listed: two \<^verbatim>\<open>REPLAN\<close>,
  then \<^verbatim>\<open>TASK_FAILED\<close>, and the promise rejects with the navigator's third error.
\<close>

theorem replan_budget:
  assumes "executeTask cfg env task_text modelId ex = (out, ex', tr)"
  shows "length (filter is_REPLAN (events_of tr)) \<le> MAX_REPLANS cfg \<and>
         length (filter is_Replan tr) = length (filter is_REPLAN (events_of tr)) \<and>
         (\<not> isRunning ex \<and> initialize env = Inr () \<and> createPlan env = Inr r0 \<and>
          (\<forall>i. getNextAction env i = Inl (e i)) \<and> (\<forall>i. replan env i = Inr (p i)) \<and>
          (\<forall>i. \<not> cancel_called env i) \<and> MAX_REPLANS cfg = 2 \<and> 3 \<le> MAX_STEPS cfg \<longrightarrow>
          out = Rejected (e 2) \<and>
          events_of tr =
            INIT_START # map INIT_PROGRESS (initialize_progress env) @
            [INIT_COMPLETE, PLAN_START, PLAN_COMPLETE (steps (plan (validate_plan r0))),
             STEP_START 1, REPLAN (''Navigator error: '' @ e 0), PLAN_COMPLETE (steps (plan (p 0))),
             STEP_START 2, REPLAN (''Navigator error: '' @ e 1), PLAN_COMPLETE (steps (plan (p 1))),
             STEP_START 3, TASK_FAILED (''Navigator error: '' @ e 2)])"
proof (intro conjI impI)
  from executeTask_effects [OF assms]
  show "length (filter is_REPLAN (events_of tr)) \<le> MAX_REPLANS cfg"
    and "length (filter is_Replan tr) = length (filter is_REPLAN (events_of tr))"
    by (simp_all add: new_replans_def)
next
  assume h: "\<not> isRunning ex \<and> initialize env = Inr () \<and> createPlan env = Inr r0 \<and>
          (\<forall>i. getNextAction env i = Inl (e i)) \<and> (\<forall>i. replan env i = Inr (p i)) \<and>
          (\<forall>i. \<not> cancel_called env i) \<and> MAX_REPLANS cfg = 2 \<and> 3 \<le> MAX_STEPS cfg"
  then have idle: "\<not> isRunning ex" and nav: "\<And>i. getNextAction env i = Inl (e i)"
    and rp: "\<And>i. replan env i = Inr (p i)" and nc: "\<And>i. \<not> cancel_called env i"
    and two: "MAX_REPLANS cfg = 2" and three: "3 \<le> MAX_STEPS cfg"
    by simp_all
  from h prepare_succeeds [of env r0 task_text modelId "start ex"] obtain st0 where
    p0: "prepare env task_text modelId (start ex) = Inr st0"
    by blast
  from prepare_Inr [OF p0] h have
    t0: "trace st0 = [Emit INIT_START, LlmInitialize modelId] @
           map (\<lambda>p. Emit (INIT_PROGRESS p)) (initialize_progress env) @
           [Emit INIT_COMPLETE, Emit PLAN_START, CreatePlan task_text,
            Emit (PLAN_COMPLETE (steps (plan (validate_plan r0))))]" and
    c0: "\<not> shouldCancel st0"
    by auto
  from two have "0 < MAX_REPLANS cfg" by simp
  from iteration_navigator_error_replan [where c = 0 and step = 0, OF c0 nc nav this rp]
  obtain d0 st1 where
    i0: "iteration cfg env 0 0 0 st0 = (Continue 1 0, st1)" and
    t1: "trace st1 = trace st0 @ Emit (STEP_START 1) # page_read_effects env 0 @
           [GetNextAction d0, Emit (REPLAN (''Navigator error: '' @ e 0)), NavigatorReset,
            Replan (e 0), Emit (PLAN_COMPLETE (steps (plan (p 0))))]" and
    c1: "\<not> shouldCancel st1"
    using c0 by auto
  from two have "1 < MAX_REPLANS cfg" by simp
  from iteration_navigator_error_replan [where c = 0 and step = 1, OF c1 nc nav this rp]
  obtain d1 st2 where
    i1: "iteration cfg env 1 1 0 st1 = (Continue 2 0, st2)" and
    t2: "trace st2 = trace st1 @ Emit (STEP_START 2) # page_read_effects env 1 @
           [GetNextAction d1, Emit (REPLAN (''Navigator error: '' @ e 1)), NavigatorReset,
            Replan (e 1), Emit (PLAN_COMPLETE (steps (plan (p 1))))]" and
    c2: "\<not> shouldCancel st2"
    using c1 by auto
  from two have "\<not> 2 < MAX_REPLANS cfg" by simp
  from iteration_navigator_error_fatal [where c = 0 and step = 2, OF c2 nc nav this]
  obtain d2 st3 where
    i2: "iteration cfg env 2 2 0 st2 = (Throw (e 2), st3)" and
    t3: "trace st3 = trace st2 @ Emit (STEP_START 3) # page_read_effects env 2 @
           [GetNextAction d2, Emit (TASK_FAILED (''Navigator error: '' @ e 2))]"
    by auto
  from three have "loop cfg env 0 0 0 st0 = loop cfg env 1 1 0 st1"
    using loop_continue [OF _ i0] by simp
  also from three have "\<dots> = loop cfg env 2 2 0 st2"
    using loop_continue [OF _ i1] by (simp add: numeral_2_eq_2)
  also from three have "\<dots> = (Rejected (e 2), st3)"
    using loop_throw [OF _ i2] by simp
  finally have "loop cfg env 0 0 0 st0 = (Rejected (e 2), st3)" .
  from executeTask_loop [OF idle p0 this] assms
  have o: "out = Rejected (e 2)" and tr: "tr = trace st3 @ [PlannerReset, NavigatorReset]"
    by simp_all
  from o show "out = Rejected (e 2)" .
  from tr t0 t1 t2 t3 show "events_of tr =
            INIT_START # map INIT_PROGRESS (initialize_progress env) @
            [INIT_COMPLETE, PLAN_START, PLAN_COMPLETE (steps (plan (validate_plan r0))),
             STEP_START 1, REPLAN (''Navigator error: '' @ e 0), PLAN_COMPLETE (steps (plan (p 0))),
             STEP_START 2, REPLAN (''Navigator error: '' @ e 1), PLAN_COMPLETE (steps (plan (p 1))),
             STEP_START 3, TASK_FAILED (''Navigator error: '' @ e 2)]"
    by simp
qed

text \<open>The scenario with the budgets of the source.\<close>

theorem replan_budget_witness:
  "events_of (snd (snd (executeTask default_config env_navigator_fails ''go to example.com'' None idle))) =
     [INIT_START, INIT_COMPLETE, PLAN_START, PLAN_COMPLETE [''Open example.com''],
      STEP_START 1, REPLAN ''Navigator error: Failed to parse response'',
      PLAN_COMPLETE [''Open example.com''],
      STEP_START 2, REPLAN ''Navigator error: Failed to parse response'',
      PLAN_COMPLETE [''Open example.com''],
      STEP_START 3, TASK_FAILED ''Navigator error: Failed to parse response''] \<and>
   fst (executeTask default_config env_navigator_fails ''go to example.com'' None idle) =
     Rejected ''Failed to parse response''"
proof -
  have "executeTask default_config env_navigator_fails ''go to example.com'' None idle =
          (fst (executeTask default_config env_navigator_fails ''go to example.com'' None idle),
           fst (snd (executeTask default_config env_navigator_fails ''go to example.com'' None idle)),
           snd (snd (executeTask default_config env_navigator_fails ''go to example.com'' None idle)))"
    by simp
  from replan_budget [OF this, of "Plan a_plan" "\<lambda>_. ''Failed to parse response''" "\<lambda>_. a_plan"]
  show ?thesis
    by (simp add: env_navigator_fails_def env_ok_def idle_def default_config_def
        validate_plan_def a_plan_def)
qed

section \<open>Cancellation\<close>

text \<open>
  Claim C7. When a run has reached the top of pass \<open>k\<close> of the loop and \<^verbatim>\<open>cancel()\<close> was
  called since the previous check, the run ends at this check: the promise rejects
  with "Task cancelled by user", and after the effects made before the check nothing
  follows but the two resets of the finalizer, so the page bridge is not called again.
\<close>

theorem cancel_at_boundary:
  assumes "at_boundary cfg env task_text modelId ex k = Some (r, c, st)" "k < MAX_STEPS cfg"
    "cancel_called env k"
  shows "executeTask cfg env task_text modelId ex =
           (Rejected ''Task cancelled by user'',
            \<lparr>isRunning = False, shouldCancel = True, current_context = None\<rparr>,
            trace st @ [PlannerReset, NavigatorReset]) \<and>
         filter is_page_bridge_call (snd (snd (executeTask cfg env task_text modelId ex))) =
           filter is_page_bridge_call (trace st)"
proof -
  from assms(2,3) have
    "loop cfg env k r c st = (Rejected ''Task cancelled by user'', st\<lparr>shouldCancel := True\<rparr>)"
    by (simp add: loop_pass iteration_cancelled)
  from executeTask_from_boundary [OF assms(1) this] show ?thesis
    by simp
qed

text \<open>\<^verbatim>\<open>cancel()\<close> during the second pass: two page reads and two clicks, then nothing.\<close>

theorem cancel_at_boundary_witness:
  "at_boundary default_config env_cancelled ''go to example.com'' None idle 2 \<noteq> None \<and>
   2 < MAX_STEPS default_config \<and> cancel_called env_cancelled 2 \<and>
   fst (executeTask default_config env_cancelled ''go to example.com'' None idle) =
     Rejected ''Task cancelled by user'' \<and>
   filter is_page_bridge_call
     (snd (snd (executeTask default_config env_cancelled ''go to example.com'' None idle))) =
     [GetDOMState, ExecuteAction Click [(''selector'', ''#go'')],
      GetDOMState, ExecuteAction Click [(''selector'', ''#go'')]]"
proof -
  have b: "at_boundary default_config env_cancelled ''go to example.com'' None idle 2 \<noteq> None"
    by code_simp
  then obtain r c st where
    s: "at_boundary default_config env_cancelled ''go to example.com'' None idle 2 = Some (r, c, st)"
    by auto
  have k: "2 < MAX_STEPS default_config"
    by (simp add: default_config_def)
  have cc: "cancel_called env_cancelled 2"
    by (simp add: env_cancelled_def)
  have pb: "filter is_page_bridge_call
     (snd (snd (executeTask default_config env_cancelled ''go to example.com'' None idle))) =
     [GetDOMState, ExecuteAction Click [(''selector'', ''#go'')],
      GetDOMState, ExecuteAction Click [(''selector'', ''#go'')]]"
    by code_simp
  from cancel_at_boundary [OF s k cc] b k cc pb show ?thesis
    by simp
qed

section \<open>The done action\<close>

text \<open>
  Claim C8, as amended. When the navigator returns an action of kind done, the
  executor emits \<^verbatim>\<open>TASK_COMPLETE\<close> as the only terminal event and the last event of the
  run, and the promise resolves with the same string: the action's \<^verbatim>\<open>result\<close> parameter
  when it is present and not the empty string, and "Task completed successfully" when
  it is absent or empty.
\<close>

theorem done_resolves:
  assumes "at_boundary cfg env task_text modelId ex k = Some (r, c, st)" "k < MAX_STEPS cfg"
    "\<not> cancel_called env k" "getNextAction env k = Inr nav" "action_type (action nav) = Done"
  shows "\<exists>result ex' tr before.
           result = (case map_of (parameters (action nav)) ''result'' of
                       None \<Rightarrow> ''Task completed successfully''
                     | Some s \<Rightarrow> if s = [] then ''Task completed successfully'' else s) \<and>
           executeTask cfg env task_text modelId ex = (Resolved result, ex', tr) \<and>
           events_of tr = before @ [TASK_COMPLETE result] \<and>
           filter is_terminal before = []"
proof -
  let ?result = "or_else (map_of (parameters (action nav)) ''result'') ''Task completed successfully''"
  from at_boundary_Some [OF assms(1)] have
    c: "\<not> shouldCancel st" and nt: "filter is_terminal (events_of (trace st)) = []"
    by simp_all
  from iteration_done [where cfg = cfg and r = r and c = c, OF c assms(3,4,5)] obtain d st' where
    it: "iteration cfg env k r c st = (Return ?result, st')" and
    t: "trace st' = trace st @ Emit (STEP_START (k + 1)) # page_read_effects env k @
             [GetNextAction d, Emit (STEP_ACTION Done (parameters (action nav))),
              Emit (TASK_COMPLETE ?result)]"
    by blast
  from assms(2) it have "loop cfg env k r c st = (Resolved ?result, st')"
    by (simp add: loop_pass)
  from executeTask_from_boundary [OF assms(1) this] have
    e: "executeTask cfg env task_text modelId ex =
          (Resolved ?result, fields (finalizer st'), trace st' @ [PlannerReset, NavigatorReset])" .
  have "events_of (trace st' @ [PlannerReset, NavigatorReset]) =
          (events_of (trace st) @ [STEP_START (k + 1), STEP_ACTION Done (parameters (action nav))])
          @ [TASK_COMPLETE ?result]"
    using t by simp
  moreover have "filter is_terminal
      (events_of (trace st) @ [STEP_START (k + 1), STEP_ACTION Done (parameters (action nav))]) = []"
    using nt by simp
  moreover have "?result = (case map_of (parameters (action nav)) ''result'' of
                       None \<Rightarrow> ''Task completed successfully''
                     | Some s \<Rightarrow> if s = [] then ''Task completed successfully'' else s)"
    by (simp add: or_else_def)
  ultimately show ?thesis
    using e by blast
qed

text \<open>The scenario of the specification: navigate, then done with "Visited example.com".\<close>

theorem done_resolves_witness:
  "at_boundary default_config env_visit ''go to example.com'' None idle 1 \<noteq> None \<and>
   fst (executeTask default_config env_visit ''go to example.com'' None idle) =
     Resolved ''Visited example.com'' \<and>
   last (events_of (snd (snd (executeTask default_config env_visit ''go to example.com'' None idle))))
     = TASK_COMPLETE ''Visited example.com''"
proof -
  have b: "at_boundary default_config env_visit ''go to example.com'' None idle 1 \<noteq> None"
    by code_simp
  then obtain r c st where
    s: "at_boundary default_config env_visit ''go to example.com'' None idle 1 = Some (r, c, st)"
    by auto
  have k: "1 < MAX_STEPS default_config"
    by (simp add: default_config_def)
  have nc: "\<not> cancel_called env_visit 1"
    by (simp add: env_visit_def env_ok_def)
  have nav: "getNextAction env_visit 1 = Inr (navigator_says Done [(''result'', ''Visited example.com'')])"
    by (simp add: env_visit_def)
  have d: "action_type (action (navigator_says Done [(''result'', ''Visited example.com'')])) = Done"
    by (simp add: navigator_says_def)
  from done_resolves [OF s k nc nav d] b show ?thesis
    by (auto simp: navigator_says_def)
qed

text \<open>
  Claim C8 as it is written fails when the \<^verbatim>\<open>result\<close> parameter is present and empty:
  the run resolves with the default message, not with the parameter.
\<close>

theorem done_with_empty_result:
  "getNextAction env_done_empty 0 = Inr (navigator_says Done [(''result'', [])]) \<and>
   map_of (parameters (action (navigator_says Done [(''result'', [])]))) ''result'' = Some [] \<and>
   fst (executeTask default_config env_done_empty ''go to example.com'' None idle) =
     Resolved ''Task completed successfully'' \<and>
   last (events_of (snd (snd (executeTask default_config env_done_empty ''go to example.com'' None idle))))
     = TASK_COMPLETE ''Task completed successfully''"
  by code_simp

section \<open>Re-planning after a navigator error\<close>

text \<open>
  Claim C4, as amended. When the navigator throws, the budget of re-plans is not
  used up and \<^verbatim>\<open>planner.replan\<close> returns, the pass uses one re-plan: after
  \<^verbatim>\<open>STEP_START\<close> and the page read it emits \<^verbatim>\<open>REPLAN\<close> with the reason
  "Navigator error: " followed by the message, resets the navigator, calls
  \<^verbatim>\<open>planner.replan\<close> with the message, stores the new plan and emits \<^verbatim>\<open>PLAN_COMPLETE\<close>
  with its steps; the failure counter is as before. The loop then goes on with the
  next value of \<^verbatim>\<open>step\<close>: the \<^verbatim>\<open>continue\<close> of a \<^verbatim>\<open>for\<close> loop runs \<^verbatim>\<open>step++\<close>, so the
  re-planning pass is one of the \<^verbatim>\<open>MAX_STEPS\<close> passes and leaves one pass fewer for
  actions.
\<close>

theorem replan_after_navigator_error:
  assumes "\<not> shouldCancel st" "\<not> cancel_called env step" "getNextAction env step = Inl errorMsg"
    "replans < MAX_REPLANS cfg" "replan env step = Inr p" "step < MAX_STEPS cfg"
  shows "\<exists>domState st'.
           iteration cfg env step replans consecutiveFailures st =
             (Continue (replans + 1) consecutiveFailures, st') \<and>
           trace st' = trace st @ Emit (STEP_START (step + 1)) # page_read_effects env step @
             [GetNextAction domState, Emit (REPLAN (''Navigator error: '' @ errorMsg)),
              NavigatorReset, Replan errorMsg, Emit (PLAN_COMPLETE (steps (plan p)))] \<and>
           current_context st' = map_option (\<lambda>c. c\<lparr>ctx_plan := Some p\<rparr>) (current_context st) \<and>
           loop cfg env step replans consecutiveFailures st =
             loop cfg env (Suc step) (replans + 1) consecutiveFailures st'"
proof -
  from iteration_navigator_error_replan [where c = consecutiveFailures, OF assms(1-5)]
  obtain d st' where
    it: "iteration cfg env step replans consecutiveFailures st =
           (Continue (replans + 1) consecutiveFailures, st')" and
    rest: "trace st' = trace st @ Emit (STEP_START (step + 1)) # page_read_effects env step @
             [GetNextAction d, Emit (REPLAN (''Navigator error: '' @ errorMsg)),
              NavigatorReset, Replan errorMsg, Emit (PLAN_COMPLETE (steps (plan p)))]"
      "current_context st' = map_option (\<lambda>c. c\<lparr>ctx_plan := Some p\<rparr>) (current_context st)"
    by blast
  from loop_continue [OF assms(6) it] it rest show ?thesis
    by blast
qed

text \<open>The first pass of a run whose navigator throws once.\<close>

theorem replan_after_navigator_error_witness:
  "fst (iteration default_config env_one_navigator_error 0 0 0 (start idle)) = Continue 1 0 \<and>
   loop default_config env_one_navigator_error 0 0 0 (start idle) =
     loop default_config env_one_navigator_error (Suc 0) 1 0
       (snd (iteration default_config env_one_navigator_error 0 0 0 (start idle)))"
proof -
  have 1: "\<not> shouldCancel (start idle)"
    by simp
  have 2: "\<not> cancel_called env_one_navigator_error 0"
    by (simp add: env_one_navigator_error_def env_ok_def)
  have 3: "getNextAction env_one_navigator_error 0 = Inl ''Failed to parse response''"
    by (simp add: env_one_navigator_error_def)
  have 4: "0 < MAX_REPLANS default_config"
    by (simp add: default_config_def)
  have 5: "replan env_one_navigator_error 0 = Inr a_plan"
    by (simp add: env_one_navigator_error_def env_ok_def)
  have 6: "0 < MAX_STEPS default_config"
    by (simp add: default_config_def)
  from replan_after_navigator_error [where consecutiveFailures = 0, OF 1 2 3 4 5 6] show ?thesis
    by auto
qed

text \<open>
  Claim C4 as it is written fails: with the budgets of the source, a navigator that
  throws on its first call and clicks from then on, the run begins 15 passes, performs
  14 actions and ends by the step budget. The re-planning pass took one of the 15.
\<close>

theorem navigator_error_replan_costs_a_step:
  "run_summary (executeTask default_config env_one_navigator_error ''go to example.com'' None idle) =
     (Rejected ''Maximum steps (15) exceeded without completing task'', 15, 14)"
  by code_simp

section \<open>The failure streak\<close>

text \<open>
  Claim C6. Consider a pass in which the navigator's action is performed (it is
  neither done nor fail), and the Action Result, which is a failure with the thrown
  message when \<^verbatim>\<open>executeAction\<close> throws. If the result is a success, the counter of
  consecutive failures is 0 afterwards and no re-plan is made. If it is a failure
  that brings the counter to 3 or more while the budget of re-plans is not used up,
  exactly one \<^verbatim>\<open>REPLAN\<close> is emitted and \<^verbatim>\<open>planner.replan\<close> is called exactly once; when it
  returns the loop goes on with the counter at 0 and one more re-plan counted (when it
  throws, the run ends with its error). Any other failure adds one to the counter and
  makes no re-plan.
\<close>

theorem failure_streak:
  assumes "\<not> shouldCancel st" "\<not> cancel_called env step" "getNextAction env step = Inr nav"
    "action_type (action nav) \<noteq> Done" "action_type (action nav) \<noteq> Fail"
    "result = (case executeAction env step of
                 Inr r \<Rightarrow> r
               | Inl msg \<Rightarrow> \<lparr>success = False, data = None, error = Some msg\<rparr>)"
    "iteration cfg env step replans consecutiveFailures st = (f, st')"
  shows "(success result \<longrightarrow>
            f = Continue replans 0 \<and> new_replans (trace st') = new_replans (trace st)) \<and>
         (\<not> success result \<and> 3 \<le> consecutiveFailures + 1 \<and> replans < MAX_REPLANS cfg \<longrightarrow>
            new_replans (trace st') = new_replans (trace st) + 1 \<and>
            length (filter is_Replan (trace st')) = length (filter is_Replan (trace st)) + 1 \<and>
            (case replan env step of
               Inr p \<Rightarrow> f = Continue (replans + 1) 0
             | Inl e \<Rightarrow> f = Throw e)) \<and>
         (\<not> success result \<and> \<not> (3 \<le> consecutiveFailures + 1 \<and> replans < MAX_REPLANS cfg) \<longrightarrow>
            f = Continue replans (consecutiveFailures + 1) \<and>
            new_replans (trace st') = new_replans (trace st))"
proof -
  from iteration_action [OF assms(1-3)] assms(7) obtain st1 where
    h: "handle_action cfg env step replans consecutiveFailures (action nav) st1 = (f, st')" and
    e: "events_of (trace st1) = events_of (trace st) @
          [STEP_START (step + 1), STEP_ACTION (action_type (action nav)) (parameters (action nav))]" and
    c: "filter is_Replan (trace st1) = filter is_Replan (trace st)"
    by metis
  from e have n: "new_replans (trace st1) = new_replans (trace st)"
    by (simp add: new_replans_def)
  from handle_performed_action [OF h assms(4-6)] n c show ?thesis
    by simp
qed

text \<open>
  Every click fails: the run reaches its third pass with two failures counted and its
  fourth with one re-plan and none. The theorem at the third pass, and at a pass that
  succeeds.
\<close>

theorem failure_streak_witness:
  "map_option (\<lambda>(replans, consecutiveFailures, st). (replans, consecutiveFailures))
     (at_boundary default_config env_failing_actions ''go to example.com'' None idle 2) =
     Some (0, 2) \<and>
   map_option (\<lambda>(replans, consecutiveFailures, st). (replans, consecutiveFailures))
     (at_boundary default_config env_failing_actions ''go to example.com'' None idle 3) =
     Some (1, 0) \<and>
   fst (iteration default_config env_failing_actions 2 0 2 (start idle)) = Continue 1 0 \<and>
   fst (iteration default_config env_ok 2 0 2 (start idle)) = Continue 0 0"
proof -
  have b: "map_option (\<lambda>(replans, consecutiveFailures, st). (replans, consecutiveFailures))
     (at_boundary default_config env_failing_actions ''go to example.com'' None idle 2) =
     Some (0, 2)"
    "map_option (\<lambda>(replans, consecutiveFailures, st). (replans, consecutiveFailures))
     (at_boundary default_config env_failing_actions ''go to example.com'' None idle 3) =
     Some (1, 0)"
    by code_simp+
  have c: "\<not> shouldCancel (start idle)"
    by simp
  have n: "action_type (action (navigator_says Click [(''selector'', ''#go'')])) \<noteq> Done"
    "action_type (action (navigator_says Click [(''selector'', ''#go'')])) \<noteq> Fail"
    by (simp_all add: navigator_says_def)
  have "\<not> cancel_called env_failing_actions 2"
    "getNextAction env_failing_actions 2 = Inr (navigator_says Click [(''selector'', ''#go'')])"
    "failed = (case executeAction env_failing_actions 2 of
                 Inr r \<Rightarrow> r
               | Inl msg \<Rightarrow> \<lparr>success = False, data = None, error = Some msg\<rparr>)"
    "iteration default_config env_failing_actions 2 0 2 (start idle) =
       (fst (iteration default_config env_failing_actions 2 0 2 (start idle)),
        snd (iteration default_config env_failing_actions 2 0 2 (start idle)))"
    by (simp_all add: env_failing_actions_def env_ok_def)
  from failure_streak [OF c this(1,2) n this(3,4)]
  have f: "fst (iteration default_config env_failing_actions 2 0 2 (start idle)) = Continue 1 0"
    by (simp add: failed_def default_config_def env_failing_actions_def env_ok_def)
  have "\<not> cancel_called env_ok 2"
    "getNextAction env_ok 2 = Inr (navigator_says Click [(''selector'', ''#go'')])"
    "succeeded = (case executeAction env_ok 2 of
                 Inr r \<Rightarrow> r
               | Inl msg \<Rightarrow> \<lparr>success = False, data = None, error = Some msg\<rparr>)"
    "iteration default_config env_ok 2 0 2 (start idle) =
       (fst (iteration default_config env_ok 2 0 2 (start idle)),
        snd (iteration default_config env_ok 2 0 2 (start idle)))"
    by (simp_all add: env_ok_def)
  from failure_streak [OF c this(1,2) n this(3,4)]
  have s: "fst (iteration default_config env_ok 2 0 2 (start idle)) = Continue 0 0"
    by (simp add: succeeded_def)
  from b f s show ?thesis
    by simp
qed

section \<open>The failure counter across re-plans\<close>

text \<open>
  Claim C10. In a pass that re-plans (the budget is not used up and \<^verbatim>\<open>planner.replan\<close>
  returns), the counter of consecutive failures with which the loop goes on is: its
  value before the pass when the navigator threw; 0 when the navigator answered with a
  fail action; 0 when the failure streak forced the re-plan. In each case one
  \<^verbatim>\<open>REPLAN\<close> is emitted, and the next pass of the loop starts with these counters.
\<close>

theorem counter_across_replans:
  assumes "\<not> shouldCancel st" "\<not> cancel_called env step" "replans < MAX_REPLANS cfg"
    "replan env step = Inr p"
    "iteration cfg env step replans consecutiveFailures st = (f, st')"
  shows "((\<exists>e. getNextAction env step = Inl e) \<longrightarrow>
            f = Continue (replans + 1) consecutiveFailures \<and>
            new_replans (trace st') = new_replans (trace st) + 1) \<and>
         ((\<exists>nav. getNextAction env step = Inr nav \<and> action_type (action nav) = Fail) \<longrightarrow>
            f = Continue (replans + 1) 0 \<and>
            new_replans (trace st') = new_replans (trace st) + 1) \<and>
         ((\<exists>nav. getNextAction env step = Inr nav \<and> action_type (action nav) \<noteq> Done \<and>
                 action_type (action nav) \<noteq> Fail \<and> 3 \<le> consecutiveFailures + 1 \<and>
                 (case executeAction env step of Inr r \<Rightarrow> \<not> success r | Inl _ \<Rightarrow> True)) \<longrightarrow>
            f = Continue (replans + 1) 0 \<and>
            new_replans (trace st') = new_replans (trace st) + 1) \<and>
         (step < MAX_STEPS cfg \<longrightarrow>
            (\<forall>replans' consecutiveFailures'. f = Continue replans' consecutiveFailures' \<longrightarrow>
               loop cfg env step replans consecutiveFailures st =
                 loop cfg env (Suc step) replans' consecutiveFailures' st'))"
proof (intro conjI impI allI)
  assume "\<exists>e. getNextAction env step = Inl e"
  then obtain e where "getNextAction env step = Inl e" ..
  from iteration_navigator_error_replan
         [where c = consecutiveFailures, OF assms(1,2) this assms(3,4)] assms(5)
  show "f = Continue (replans + 1) consecutiveFailures"
    and "new_replans (trace st') = new_replans (trace st) + 1"
    by (auto simp: new_replans_def)
next
  assume "\<exists>nav. getNextAction env step = Inr nav \<and> action_type (action nav) = Fail"
  then obtain nav where "getNextAction env step = Inr nav" "action_type (action nav) = Fail"
    by blast
  from iteration_fail_replan [where c = consecutiveFailures, OF assms(1,2) this assms(3,4)] assms(5)
  show "f = Continue (replans + 1) 0"
    and "new_replans (trace st') = new_replans (trace st) + 1"
    by (auto simp: new_replans_def)
next
  assume "\<exists>nav. getNextAction env step = Inr nav \<and> action_type (action nav) \<noteq> Done \<and>
                 action_type (action nav) \<noteq> Fail \<and> 3 \<le> consecutiveFailures + 1 \<and>
                 (case executeAction env step of Inr r \<Rightarrow> \<not> success r | Inl _ \<Rightarrow> True)"
  then obtain nav where n: "getNextAction env step = Inr nav" "action_type (action nav) \<noteq> Done"
    "action_type (action nav) \<noteq> Fail" and three: "3 \<le> consecutiveFailures + 1" and
    failed: "case executeAction env step of Inr r \<Rightarrow> \<not> success r | Inl _ \<Rightarrow> True"
    by blast
  from failed have "\<not> success (case executeAction env step of
                 Inr r \<Rightarrow> r
               | Inl msg \<Rightarrow> \<lparr>success = False, data = None, error = Some msg\<rparr>)"
    by (simp split: sum.splits)
  moreover from iteration_action [OF assms(1,2) n(1)] assms(5) obtain st1 where
    h: "handle_action cfg env step replans consecutiveFailures (action nav) st1 = (f, st')" and
    e: "events_of (trace st1) = events_of (trace st) @
          [STEP_START (step + 1), STEP_ACTION (action_type (action nav)) (parameters (action nav))]"
    by metis
  moreover from e have "new_replans (trace st1) = new_replans (trace st)"
    by (simp add: new_replans_def)
  moreover note handle_performed_action [OF h n(2,3) refl] three assms(3,4)
  ultimately show "f = Continue (replans + 1) 0"
    and "new_replans (trace st') = new_replans (trace st) + 1"
    by simp_all
next
  fix replans' consecutiveFailures'
  assume "step < MAX_STEPS cfg" "f = Continue replans' consecutiveFailures'"
  with assms(5) show "loop cfg env step replans consecutiveFailures st =
                 loop cfg env (Suc step) replans' consecutiveFailures' st'"
    by (simp add: loop_continue)
qed

text \<open>Two failures counted, then the navigator throws: the counter stays at 2.\<close>

theorem counter_across_replans_witness:
  "fst (iteration default_config env_one_navigator_error 0 0 2 (start idle)) = Continue 1 2"
proof -
  have "\<not> shouldCancel (start idle)" "\<not> cancel_called env_one_navigator_error 0"
    "0 < MAX_REPLANS default_config" "replan env_one_navigator_error 0 = Inr a_plan"
    "iteration default_config env_one_navigator_error 0 0 2 (start idle) =
       (fst (iteration default_config env_one_navigator_error 0 0 2 (start idle)),
        snd (iteration default_config env_one_navigator_error 0 0 2 (start idle)))"
    by (simp_all add: env_one_navigator_error_def env_ok_def default_config_def)
  from counter_across_replans [OF this] show ?thesis
    by (simp add: env_one_navigator_error_def)
qed

section \<open>Terminal events\<close>

lemma filter_butlast_empty: "filter P xs = [] \<Longrightarrow> filter P (butlast xs) = []"
  by (auto simp: filter_empty_conv dest: in_set_butlastD)

lemma terminal_only_last_append:
  "filter is_terminal (events_of xs) = [] \<Longrightarrow> terminal_only_last ys \<Longrightarrow>
     terminal_only_last (xs @ ys)"
  by (simp add: terminal_only_last_def butlast_append filter_butlast_empty)

lemma handle_action_terminal:
  assumes "handle_action cfg env step r c a st = (f, st')"
  shows "\<exists>efs. trace st' = trace st @ efs \<and> terminal_only_last efs"
  using assms
  by (auto simp: handle_action_def Let_def terminal_only_last_def
      split: if_splits sum.splits prod.splits dest!: do_replan_Inr do_replan_Inl)

lemma iteration_terminal:
  assumes "iteration cfg env step r c st = (f, st')"
  shows "\<exists>efs. trace st' = trace st @ efs \<and> terminal_only_last efs"
proof (cases "shouldCancel st \<or> cancel_called env step")
  case True
  with assms show ?thesis
    by (auto simp: iteration_def terminal_only_last_def)
next
  case False
  show ?thesis
  proof (cases "getNextAction env step")
    case (Inl errorMsg)
    with assms False show ?thesis
      by (auto simp: iteration_def Let_def case_prod_beta terminal_only_last_def
          split: if_splits sum.splits prod.splits dest!: do_replan_Inr do_replan_Inl)
  next
    case (Inr nav)
    let ?pre = "Emit (STEP_START (step + 1)) # page_read_effects env step @
            [GetNextAction (fst (read_page env step (emit (STEP_START (step + 1)) st))),
             Emit (STEP_ACTION (action_type (action nav)) (parameters (action nav)))]"
    let ?st1 = "emit (STEP_ACTION (action_type (action nav)) (parameters (action nav)))
                  (call (GetNextAction (fst (read_page env step (emit (STEP_START (step + 1)) st))))
                     (snd (read_page env step (emit (STEP_START (step + 1)) st))))"
    from assms False Inr have h: "handle_action cfg env step r c (action nav) ?st1 = (f, st')"
      by (simp add: iteration_def Let_def case_prod_beta)
    have t: "trace ?st1 = trace st @ ?pre"
      by simp
    from handle_action_terminal [OF h] obtain efs where
      e: "trace st' = trace ?st1 @ efs" "terminal_only_last efs"
      by blast
    have "filter is_terminal (events_of ?pre) = []"
      by simp
    from terminal_only_last_append [OF this e(2)] e(1) t show ?thesis
      by auto
  qed
qed

lemma loop_terminal:
  "loop cfg env step r c st = (out, st') \<Longrightarrow>
     \<exists>efs. trace st' = trace st @ efs \<and> terminal_only_last efs"
proof (induction cfg env step r c st rule: loop.induct)
  case (1 cfg env step r c st)
  show ?case
  proof (cases "step < MAX_STEPS cfg")
    case False
    with "1.prems" have "st' = emit (TASK_FAILED (max_steps_error cfg)) st"
      by (simp add: loop_exhausted)
    then show ?thesis
      by (simp add: terminal_only_last_def)
  next
    case True
    obtain f st1 where it: "iteration cfg env step r c st = (f, st1)"
      by (cases "iteration cfg env step r c st")
    from iteration_terminal [OF it] obtain efs where
      t: "trace st1 = trace st @ efs" "terminal_only_last efs"
      by blast
    show ?thesis
    proof (cases f)
      case (Continue r' c')
      with it True "1.prems" have l: "loop cfg env (Suc step) r' c' st1 = (out, st')"
        by (simp add: loop_pass)
      from "1.IH" [OF True it [symmetric] Continue l] obtain efs' where
        t': "trace st' = trace st1 @ efs'" "terminal_only_last efs'"
        by blast
      from iteration_effects [OF it] Continue t(1) have "filter is_terminal (events_of efs) = []"
        by (auto simp: pass_ok_def)
      from terminal_only_last_append [OF this t'(2)] t(1) t'(1) show ?thesis
        by auto
    next
      case (Return x)
      with it True "1.prems" have "st' = st1"
        by (simp add: loop_pass)
      with t show ?thesis by blast
    next
      case (Throw x)
      with it True "1.prems" have "st' = st1"
        by (simp add: loop_pass)
      with t show ?thesis by blast
    qed
  qed
qed

lemma terminal_only_last_resets:
  "terminal_only_last efs \<Longrightarrow> terminal_only_last (efs @ [PlannerReset, NavigatorReset])"
  by (simp add: terminal_only_last_def)

text \<open>
  In every call, only the last event of the run can be terminal: there is at most one
  terminal event, and once it is emitted the loop makes no further pass.
\<close>

lemma terminal_event_is_last:
  assumes "executeTask cfg env task_text modelId ex = (out, ex', tr)"
  shows "filter is_terminal (butlast (events_of tr)) = []"
proof (cases "isRunning ex")
  case True
  with assms show ?thesis
    by (simp add: executeTask_busy)
next
  case False
  show ?thesis
  proof (cases "prepare env task_text modelId (start ex)")
    case (Inl ended)
    obtain o1 st where "ended = (o1, st)" by (cases ended)
    with Inl have p: "prepare env task_text modelId (start ex) = Inl (o1, st)" by simp
    from executeTask_ended_early [OF False p, of cfg] assms
    have tr: "tr = trace st @ [PlannerReset, NavigatorReset]" by simp
    from p have "terminal_only_last (trace st)"
      by (auto simp: prepare_def Let_def progress_effects terminal_only_last_def butlast_append
          split: sum.splits)
    from terminal_only_last_resets [OF this] tr show ?thesis
      by (simp add: terminal_only_last_def)
  next
    case (Inr st0)
    obtain o1 st where l: "loop cfg env 0 0 0 st0 = (o1, st)"
      by (cases "loop cfg env 0 0 0 st0")
    from executeTask_loop [OF False Inr l] assms
    have tr: "tr = trace st @ [PlannerReset, NavigatorReset]" by simp
    from prepare_Inr [OF Inr] have "filter is_terminal (events_of (trace st0)) = []"
      by auto
    moreover from loop_terminal [OF l] obtain efs where
      "trace st = trace st0 @ efs" "terminal_only_last efs"
      by blast
    ultimately have "terminal_only_last (trace st)"
      using terminal_only_last_append by simp
    from terminal_only_last_resets [OF this] tr show ?thesis
      by (simp add: terminal_only_last_def)
  qed
qed

text \<open>
  Claim C1, evaluated where it fails. \<^verbatim>\<open>cancel()\<close> is called while the model loads; the
  first check of the loop throws "Task cancelled by user" without emitting anything.
  The promise rejects, and among the events of the run there is neither
  \<^verbatim>\<open>TASK_COMPLETE\<close> nor \<^verbatim>\<open>TASK_FAILED\<close>.
\<close>

theorem cancelled_run_emits_no_terminal_event:
  "executeTask default_config env_cancelled_early ''go to example.com'' None idle =
     (Rejected ''Task cancelled by user'',
      \<lparr>isRunning = False, shouldCancel = True, current_context = None\<rparr>,
      [Emit INIT_START, LlmInitialize None, Emit INIT_COMPLETE, Emit PLAN_START,
       CreatePlan ''go to example.com'', Emit (PLAN_COMPLETE [''Open example.com'']),
       PlannerReset, NavigatorReset]) \<and>
   filter is_terminal
     (events_of (snd (snd (executeTask default_config env_cancelled_early ''go to example.com''
        None idle)))) = []"
  by code_simp

section \<open>Plans without steps\<close>

text \<open>
  Claim C5, evaluated where it fails. The navigator throws once and \<^verbatim>\<open>planner.replan\<close>
  answers with a plan whose list of steps is empty. The executor stores that plan in
  the context as it is and emits \<^verbatim>\<open>PLAN_COMPLETE\<close> with the empty list; the checks made
  on the plan of \<^verbatim>\<open>createPlan\<close> are not made here.
\<close>

theorem replan_result_is_not_validated:
  "events_of (snd (snd (executeTask default_config env_empty_replan ''go to example.com'' None idle)))
     = [INIT_START, INIT_COMPLETE, PLAN_START, PLAN_COMPLETE [''Open example.com''],
        STEP_START 1, REPLAN ''Navigator error: Failed to parse response'', PLAN_COMPLETE [],
        STEP_START 2, STEP_ACTION Done [(''result'', ''Gave up'')], TASK_COMPLETE ''Gave up''] \<and>
   map_option (\<lambda>(replans, consecutiveFailures, st). map_option ctx_plan (current_context st))
     (at_boundary default_config env_empty_replan ''go to example.com'' None idle 1) =
     Some (Some (Some empty_plan)) \<and>
   steps (plan empty_plan) = []"
  by code_simp

end
